theory Spec2Isabelle
  imports Main "HOL-Library.Sublist"
begin

section \<open>Strings and template literals\<close>

text \<open>
  The schema compiler (\<^verbatim>\<open>processSchema\<close> in schema.ts) builds its statements with
  template literals, \<^verbatim>\<open>Array.prototype.join\<close> and the decimal rendering of array
  indices. These are the string helpers it needs.
\<close>

definition digit_char :: "nat \<Rightarrow> char" where
  "digit_char d = ''0123456789'' ! d"

fun decimal :: "nat \<Rightarrow> string" where
  "decimal n =
     (if n < 10 then [digit_char n]
      else decimal (n div 10) @ [digit_char (n mod 10)])"

declare decimal.simps [simp del]

fun join :: "string \<Rightarrow> string list \<Rightarrow> string" where
  "join sep [] = []"
| "join sep [x] = x"
| "join sep (x # y # ys) = x @ sep @ join sep (y # ys)"

definition nl :: string where
  "nl = [CHR 0x0A]"

section \<open>The schema compiler\<close>

text \<open>
  A schema is a JavaScript object from table names to objects from column names to type
  tags. It is modelled as an association list in the order in which \<^verbatim>\<open>for ... in\<close> and
  \<^verbatim>\<open>Object.keys\<close> enumerate the object; the type tags are never inspected by the
  compiler and stay a type parameter.
\<close>

type_synonym 'ty schema = "(string \<times> (string \<times> 'ty) list) list"

record schema_info =
  namesForTable :: "string \<rightharpoonup> string list"
  selectUpdateForTable :: "string \<rightharpoonup> string"
  createForTable :: "string \<rightharpoonup> string"
  updateForTable :: "string \<rightharpoonup> string"

definition empty_info :: schema_info where
  "empty_info = \<lparr> namesForTable = Map.empty, selectUpdateForTable = Map.empty,
                  createForTable = Map.empty, updateForTable = Map.empty \<rparr>"

definition select_stmt :: "string \<Rightarrow> string list \<Rightarrow> string" where
  "select_stmt table names =
     nl @ ''      SELECT '' @ join '','' names @
     nl @ ''      FROM '' @ table @
     nl @ ''      WHERE id = $1::uuid FOR UPDATE'' @
     nl @ ''    ''"

definition insertionValues :: "string list \<Rightarrow> string list" where
  "insertionValues names = map (\<lambda>(i, name). ''$'' @ decimal (i + 1)) (enumerate 0 names)"

definition insert_stmt :: "string \<Rightarrow> string list \<Rightarrow> string" where
  "insert_stmt table names =
     nl @ ''      INSERT INTO '' @ table @
     nl @ ''      ('' @ join '','' names @ '')'' @
     nl @ ''      VALUES ('' @ join '','' (insertionValues names) @ '')'' @
     nl @ ''      RETURNING id::text'' @
     nl @ ''    ''"

definition updateValues :: "string list \<Rightarrow> string list" where
  "updateValues names =
     map (\<lambda>(i, n). n @ ''=COALESCE($'' @ decimal (i + 1) @ '', '' @ n @ '')'')
       (enumerate 0 names)"

definition update_stmt :: "string \<Rightarrow> string list \<Rightarrow> string" where
  "update_stmt table names =
     nl @ ''      UPDATE '' @ table @
     nl @ ''      SET '' @ join '','' (updateValues names) @
     nl @ ''      WHERE id = $'' @ decimal (length names + 1) @ ''::uuid'' @
     nl @ ''    ''"

definition compile_table :: "schema_info \<Rightarrow> string \<times> (string \<times> 'ty) list \<Rightarrow> schema_info" where
  "compile_table info entry =
     (case entry of (table, columns) \<Rightarrow>
        if table = ''events'' then info
        else
          let names = map fst columns in
          info\<lparr> namesForTable := (namesForTable info)(table \<mapsto> names),
                selectUpdateForTable := (selectUpdateForTable info)(table \<mapsto> select_stmt table names),
                createForTable := (createForTable info)(table \<mapsto> insert_stmt table names),
                updateForTable := (updateForTable info)(table \<mapsto> update_stmt table names) \<rparr>)"

definition processSchema :: "'ty schema \<Rightarrow> schema_info" where
  "processSchema schema = foldl compile_table empty_info schema"

text \<open>The four entries the compiled schema holds for one table name.\<close>

definition descriptor ::
  "schema_info \<Rightarrow> string \<Rightarrow> string list option \<times> string option \<times> string option \<times> string option" where
  "descriptor info t =
     (namesForTable info t, selectUpdateForTable info t, createForTable info t, updateForTable info t)"


section \<open>JavaScript values\<close>

text \<open>
  The engine in event.ts is typed \<^verbatim>\<open>any\<close> on the inside, so inputs, payloads, rows and
  identifiers are modelled as untyped JavaScript values. An object is the association
  list of its own enumerable string-keyed properties in enumeration order; a well-formed
  object has distinct keys. Numbers are integers. \<open>JBuiltin name\<close> is the built-in
  function or object that \<^verbatim>\<open>Object.prototype\<close> holds under \<open>name\<close>: it is what a
  plain object answers when it is asked for a name it inherits. The dispatcher's row
  cache \<^verbatim>\<open>selectedObjects\<close> is read that way (see \<open>selected_lookup\<close> below), because
  its guard decides whether a command aborts. The registries and the values that client
  code passes in are modelled by their own properties only, and the properties of boxed
  primitives and of built-ins are outside the model.
\<close>

datatype jsval =
    JUndefined
  | JNull
  | JBool bool
  | JNum int
  | JStr string
  | JObj "(string \<times> jsval) list"
  | JBuiltin string

datatype error =
    DuplicateCommandName string
  | DuplicateEventHandler
  | FailedToGetId
  | NotRequestedInMutator
  | TypeError
  | StoreError
  | Thrown string

definition nullish :: "jsval \<Rightarrow> bool" where
  "nullish v = (v = JUndefined \<or> v = JNull)"

fun truthy :: "jsval \<Rightarrow> bool" where
  "truthy JUndefined = False"
| "truthy JNull = False"
| "truthy (JBool b) = b"
| "truthy (JNum n) = (n \<noteq> 0)"
| "truthy (JStr s) = (s \<noteq> [])"
| "truthy (JObj kvs) = True"
| "truthy (JBuiltin name) = True"

text \<open>The operator \<^verbatim>\<open>a ?? b\<close>.\<close>

definition nullish_coalesce :: "jsval \<Rightarrow> jsval \<Rightarrow> jsval" where
  "nullish_coalesce a b = (if nullish a then b else a)"

text \<open>\<^verbatim>\<open>String(n)\<close> for an integer \<open>n\<close>.\<close>

definition number_to_string :: "int \<Rightarrow> string" where
  "number_to_string n = (if 0 \<le> n then decimal (nat n) else CHR ''-'' # decimal (nat (- n)))"

text \<open>The string a value becomes when it is used as a property key.\<close>

fun to_key :: "jsval \<Rightarrow> string" where
  "to_key JUndefined = ''undefined''"
| "to_key JNull = ''null''"
| "to_key (JBool b) = (if b then ''true'' else ''false'')"
| "to_key (JNum n) = number_to_string n"
| "to_key (JStr s) = s"
| "to_key (JObj kvs) = ''[object Object]''"
| "to_key (JBuiltin name) =
     (if name = ''__proto__'' then ''[object Object]''
      else ''function '' @ (if name = ''constructor'' then ''Object'' else name) @
           ''() { [native code] }'')"

text \<open>Reading \<^verbatim>\<open>v[name]\<close>: a TypeError on \<^verbatim>\<open>undefined\<close> and \<^verbatim>\<open>null\<close>.\<close>

fun get_prop :: "jsval \<Rightarrow> string \<Rightarrow> error + jsval" where
  "get_prop JUndefined name = Inl TypeError"
| "get_prop JNull name = Inl TypeError"
| "get_prop (JObj kvs) name = Inr (case map_of kvs name of Some v \<Rightarrow> v | None \<Rightarrow> JUndefined)"
| "get_prop v name = Inr JUndefined"

text \<open>Writing \<^verbatim>\<open>o[k] = v\<close>: an existing key keeps its place, a new key goes last.\<close>

fun obj_set :: "(string \<times> jsval) list \<Rightarrow> string \<Rightarrow> jsval \<Rightarrow> (string \<times> jsval) list" where
  "obj_set [] k v = [(k, v)]"
| "obj_set ((k', v') # kvs) k v = (if k' = k then (k, v) # kvs else (k', v') # obj_set kvs k v)"

text \<open>
  The own enumerable properties a spread \<^verbatim>\<open>{...v}\<close> or a rest pattern copies: those of an
  object, the indexed characters of a string, none of any other value.
\<close>

fun own_props :: "jsval \<Rightarrow> (string \<times> jsval) list" where
  "own_props (JObj kvs) = kvs"
| "own_props (JStr s) = map (\<lambda>(i, c). (decimal i, JStr [c])) (enumerate 0 s)"
| "own_props v = []"

definition obj_assign :: "(string \<times> jsval) list \<Rightarrow> jsval \<Rightarrow> (string \<times> jsval) list" where
  "obj_assign target src = foldl (\<lambda>acc (k, v). obj_set acc k v) target (own_props src)"

text \<open>The object literal \<^verbatim>\<open>{...a, ...b}\<close>.\<close>

definition spread2 :: "jsval \<Rightarrow> jsval \<Rightarrow> jsval" where
  "spread2 a b = JObj (obj_assign (obj_assign [] a) b)"

text \<open>The rest object of \<^verbatim>\<open>const { table, ...data } = data_\<close>.\<close>

definition rest_without_table :: "jsval \<Rightarrow> jsval" where
  "rest_without_table input_data = JObj (filter (\<lambda>(k, v). k \<noteq> ''table'') (own_props input_data))"

text \<open>The names every plain object inherits from \<^verbatim>\<open>Object.prototype\<close>.\<close>

definition object_prototype_keys :: "string list" where
  "object_prototype_keys =
     [''constructor'', ''__defineGetter__'', ''__defineSetter__'', ''hasOwnProperty'',
      ''__lookupGetter__'', ''__lookupSetter__'', ''isPrototypeOf'', ''propertyIsEnumerable'',
      ''toString'', ''valueOf'', ''__proto__'', ''toLocaleString'']"

text \<open>
  Reading \<^verbatim>\<open>selectedObjects[key]\<close>, where \<^verbatim>\<open>selectedObjects\<close> is a plain \<^verbatim>\<open>{}\<close> that
  holds the locked rows as own properties: an own property first, then what the object
  inherits; \<open>None\<close> is \<^verbatim>\<open>undefined\<close>.
\<close>

definition selected_lookup :: "(string \<rightharpoonup> jsval) \<Rightarrow> string \<Rightarrow> jsval option" where
  "selected_lookup selectedObjects key =
     (case selectedObjects key of
        Some v \<Rightarrow> Some v
      | None \<Rightarrow> if key \<in> set object_prototype_keys then Some (JBuiltin key) else None)"

definition nth_or_undefined :: "jsval list \<Rightarrow> nat \<Rightarrow> jsval" where
  "nth_or_undefined xs i = (if i < length xs then xs ! i else JUndefined)"

section \<open>Events, reducers and the registries\<close>

text \<open>
  An event object as the factories of \<^verbatim>\<open>createCommand\<close> build it. \<open>ev_name\<close> is the
  property under the private symbol \<^verbatim>\<open>_event_name\<close>; a creation event has no
  \<^verbatim>\<open>rowId\<close> property, which reads as \<^verbatim>\<open>undefined\<close>. An \<^verbatim>\<open>undefined\<close> entry of the
  planned list is \<open>None\<close>.
\<close>

record esevent =
  ev_name :: jsval
  ev_kind :: jsval
  ev_data :: jsval
  ev_rowId :: jsval
  ev_table :: jsval

text \<open>
  The objects \<^verbatim>\<open>{ kind: "create", creator }\<close> and \<^verbatim>\<open>{ kind: "modify", updater }\<close> that
  \<^verbatim>\<open>ReducerObject\<close> registers. The callbacks are client code and may throw.
\<close>

datatype reducer =
    CreateReducer "jsval \<Rightarrow> error + jsval"
  | ModifyReducer "jsval \<Rightarrow> jsval \<Rightarrow> error + jsval"

record registry =
  commandNames :: "string \<rightharpoonup> bool"
  reducers :: "string \<rightharpoonup> (string \<rightharpoonup> reducer)"

datatype logline =
    LogFailed error
  | LogValues "jsval list"
  | LogInvalidEvent
  | LogMismatch

text \<open>
  \<^verbatim>\<open>addReducer(table, name, reducer)\<close>. A throw does not undo what was written before it,
  so the registry is returned beside the outcome, and with it the lines written to the
  console.
\<close>

definition addReducer ::
  "string \<Rightarrow> string \<Rightarrow> reducer \<Rightarrow> registry \<Rightarrow> error option \<times> registry \<times> logline list" where
  "addReducer table name reducer reg =
     (let forTable = (case reducers reg table of None \<Rightarrow> Map.empty | Some m \<Rightarrow> m);
          reg1 = reg\<lparr> reducers := (reducers reg)(table \<mapsto> forTable) \<rparr>
      in case forTable name of
           Some r \<Rightarrow> (Some DuplicateEventHandler, reg1, [LogValues [JStr name, JStr table]])
         | None \<Rightarrow>
             (None, reg1\<lparr> reducers := (reducers reg1)(table \<mapsto> forTable(name \<mapsto> reducer)) \<rparr>, []))"

definition reducer_creator ::
  "string \<Rightarrow> string \<Rightarrow> (jsval \<Rightarrow> error + jsval) \<Rightarrow> registry \<Rightarrow> error option \<times> registry \<times> logline list" where
  "reducer_creator table eventInfo_name creator reg =
     addReducer table eventInfo_name (CreateReducer creator) reg"

definition reducer_updater ::
  "string \<Rightarrow> string \<Rightarrow> (jsval \<Rightarrow> jsval \<Rightarrow> error + jsval) \<Rightarrow> registry
     \<Rightarrow> error option \<times> registry \<times> logline list" where
  "reducer_updater table eventInfo_name updater reg =
     addReducer table eventInfo_name (ModifyReducer updater) reg"

text \<open>The lookup \<^verbatim>\<open>reducers[table]?.[eventName]\<close> of the dispatcher.\<close>

definition lookup_reducer :: "registry \<Rightarrow> jsval \<Rightarrow> jsval \<Rightarrow> reducer option" where
  "lookup_reducer reg table eventName =
     (case reducers reg (to_key table) of
        None \<Rightarrow> None
      | Some forTable \<Rightarrow> forTable (to_key eventName))"

section \<open>The store\<close>

text \<open>
  Modelled from the spec: the store collaborator, that is the PostgreSQL database behind
  the \<^verbatim>\<open>Client\<close> of ts-postgres, which is not part of the repository. It is a single
  connection to a transactional store. Table rows are keyed by table name and row
  identifier (a UUID in its canonical text) and hold the column values in the order of
  the compiled column list; the event log is a list in insertion order. \<^verbatim>\<open>begin\<close>
  opens a working copy of the committed state, \<^verbatim>\<open>commit\<close> makes the working copy the
  committed state and \<^verbatim>\<open>rollback\<close> discards it. A connection is open or closed for
  the whole of a call. On a closed connection \<^verbatim>\<open>begin\<close>, \<^verbatim>\<open>commit\<close> and
  \<^verbatim>\<open>rollback\<close> fail; the other statements are issued only after \<^verbatim>\<open>begin\<close> has
  succeeded, hence on an open connection, and are modelled for that case. Each compiled
  statement is executed by the store operation that has the semantics of its SQL text;
  a parameter reaches the statement as its text (\<^verbatim>\<open>undefined\<close> and \<^verbatim>\<open>null\<close> as
  \<^verbatim>\<open>NULL\<close>), and a cast \<^verbatim>\<open>::uuid\<close> fails the statement when the text is not that of a
  UUID. The types of the other columns are not modelled: a column takes any value. The
  identifiers the store gives to inserted rows are not chosen by the engine:
  \<open>id_supply\<close> lists what the next insert statements will return (\<open>None\<close> is a
  \<^verbatim>\<open>NULL\<close> identifier, an exhausted supply an insert that returns no row). Row locks
  are not modelled: there is one connection.
\<close>

text \<open>
  Modelled from the spec: the texts PostgreSQL accepts for a UUID. Thirty-two
  hexadecimal digits in either case, a hyphen allowed after each group of four digits
  but the last, the whole optionally in braces.
\<close>

definition hex_digit :: "char \<Rightarrow> bool" where
  "hex_digit c = (c \<in> set ''0123456789abcdefABCDEF'')"

fun uuid_groups :: "nat \<Rightarrow> string \<Rightarrow> bool" where
  "uuid_groups 0 s = (s = [])"
| "uuid_groups (Suc n) (a # b # c # d # rest) =
     (hex_digit a \<and> hex_digit b \<and> hex_digit c \<and> hex_digit d \<and>
      (case rest of
         [] \<Rightarrow> uuid_groups n rest
       | x # xs \<Rightarrow> if x = CHR ''-'' then n \<noteq> 0 \<and> uuid_groups n xs else uuid_groups n rest))"
| "uuid_groups (Suc n) s = False"

definition is_uuid :: "string \<Rightarrow> bool" where
  "is_uuid s =
     (case s of
        [] \<Rightarrow> False
      | x # xs \<Rightarrow>
          if x = CHR ''{'' then xs \<noteq> [] \<and> last xs = CHR ''}'' \<and> uuid_groups 8 (butlast xs)
          else uuid_groups 8 s)"

text \<open>
  Modelled from the spec: the canonical text of a UUID, lower case and hyphenated
  8-4-4-4-12, by which the store compares identifiers.
\<close>

definition lower_hex :: "char \<Rightarrow> char" where
  "lower_hex c =
     (if c = CHR ''A'' then CHR ''a'' else if c = CHR ''B'' then CHR ''b''
      else if c = CHR ''C'' then CHR ''c'' else if c = CHR ''D'' then CHR ''d''
      else if c = CHR ''E'' then CHR ''e'' else if c = CHR ''F'' then CHR ''f'' else c)"

definition uuid_canon :: "string \<Rightarrow> string" where
  "uuid_canon s =
     (let h = map lower_hex (filter hex_digit s)
      in take 8 h @ ''-'' @ take 4 (drop 8 h) @ ''-'' @ take 4 (drop 12 h) @ ''-'' @
         take 4 (drop 16 h) @ ''-'' @ drop 20 h)"

text \<open>
  Modelled from the spec: a parameter under a cast \<^verbatim>\<open>::uuid\<close>. \<open>uuid_param\<close> says that
  the cast succeeds, \<open>uuid_of\<close> is the value it gives (\<open>None\<close> is \<^verbatim>\<open>NULL\<close>).
\<close>

definition uuid_param :: "jsval \<Rightarrow> bool" where
  "uuid_param v = (nullish v \<or> is_uuid (to_key v))"

definition uuid_of :: "jsval \<Rightarrow> string option" where
  "uuid_of v = (if nullish v then None else Some (uuid_canon (to_key v)))"

record log_entry =
  le_name :: jsval
  le_table :: jsval
  le_rowId :: jsval
  le_actor :: string
  le_data :: jsval
  le_created_at :: nat

record dbstate =
  db_rows :: "string \<times> string \<rightharpoonup> jsval list"
  db_events :: "log_entry list"

record world =
  committed :: dbstate
  current :: dbstate
  id_supply :: "string option list"
  console :: "logline list"
  connected :: bool

type_synonym 'a outcome = "(error + 'a) \<times> world"

text \<open>
  Modelled from the spec: the statements \<^verbatim>\<open>begin\<close>, \<^verbatim>\<open>commit\<close> and \<^verbatim>\<open>rollback\<close>. Each
  fails on a closed connection.
\<close>

definition discard_work :: "world \<Rightarrow> world" where
  "discard_work w = w\<lparr> current := committed w \<rparr>"

definition keep_work :: "world \<Rightarrow> world" where
  "keep_work w = w\<lparr> committed := current w \<rparr>"

definition tx_begin :: "world \<Rightarrow> unit outcome" where
  "tx_begin w = (if connected w then (Inr (), discard_work w) else (Inl StoreError, w))"

definition tx_commit :: "world \<Rightarrow> unit outcome" where
  "tx_commit w = (if connected w then (Inr (), keep_work w) else (Inl StoreError, w))"

definition tx_rollback :: "world \<Rightarrow> unit outcome" where
  "tx_rollback w = (if connected w then (Inr (), discard_work w) else (Inl StoreError, w))"

text \<open>\<^verbatim>\<open>console.log\<close> and \<^verbatim>\<open>console.error\<close>: one more line on the console.\<close>

definition console_log :: "logline \<Rightarrow> world \<Rightarrow> world" where
  "console_log l w = w\<lparr> console := console w @ [l] \<rparr>"

text \<open>
  Modelled from the spec: the lock-and-select statement, \<^verbatim>\<open>SELECT\<close> of all columns
  \<^verbatim>\<open>WHERE id = $1::uuid FOR UPDATE\<close>. The value is the list of rows of the result.
\<close>

definition exec_select :: "dbstate \<Rightarrow> string \<Rightarrow> string \<Rightarrow> error + jsval list list" where
  "exec_select db table rid =
     (if is_uuid rid
      then Inr (case db_rows db (table, uuid_canon rid) of None \<Rightarrow> [] | Some r \<Rightarrow> [r])
      else Inl StoreError)"

text \<open>
  Modelled from the spec: the insert statement with \<^verbatim>\<open>RETURNING id::text\<close>. The value
  is the list of rows of the result. An identifier that is already taken in the table
  violates the primary key.
\<close>

definition exec_insert :: "string \<Rightarrow> jsval list \<Rightarrow> world \<Rightarrow> jsval list list outcome" where
  "exec_insert table rowData w =
     (case id_supply w of
        [] \<Rightarrow> (Inr [], w)
      | None # ids \<Rightarrow> (Inr [[JNull]], w\<lparr> id_supply := ids \<rparr>)
      | Some i # ids \<Rightarrow>
          (if (table, i) \<in> dom (db_rows (current w)) then (Inl StoreError, w\<lparr> id_supply := ids \<rparr>)
           else (Inr [[JStr i]],
                 w\<lparr> current := (current w)\<lparr> db_rows := (db_rows (current w))((table, i) \<mapsto> rowData) \<rparr>,
                    id_supply := ids \<rparr>)))"

text \<open>
  Modelled from the spec: \<^verbatim>\<open>SET c = COALESCE($i, c)\<close> for every column, where a
  \<^verbatim>\<open>NULL\<close> parameter keeps the value of the column.
\<close>

definition coalesce_row :: "jsval list \<Rightarrow> jsval list \<Rightarrow> jsval list" where
  "coalesce_row params row =
     map (\<lambda>(p, old). if nullish p then old else p) (zip params row) @ drop (length params) row"

text \<open>
  Modelled from the spec: the update statement; its last parameter is the row
  identifier, \<^verbatim>\<open>WHERE id = $n::uuid\<close>. A \<^verbatim>\<open>NULL\<close> identifier, or one that names no row
  of the table, matches nothing.
\<close>

definition row_update :: "string \<Rightarrow> jsval list \<Rightarrow> string option \<Rightarrow> world \<Rightarrow> world" where
  "row_update table params rid w =
     (case rid of
        None \<Rightarrow> w
      | Some i \<Rightarrow>
          (case db_rows (current w) (table, i) of
             None \<Rightarrow> w
           | Some row \<Rightarrow>
               w\<lparr> current := (current w)\<lparr> db_rows :=
                    (db_rows (current w))((table, i) \<mapsto> coalesce_row params row) \<rparr> \<rparr>))"

definition exec_update :: "string \<Rightarrow> jsval list \<Rightarrow> jsval \<Rightarrow> world \<Rightarrow> unit outcome" where
  "exec_update table params rowId w =
     (if uuid_param rowId then (Inr (), row_update table params (uuid_of rowId) w)
      else (Inl StoreError, w))"

text \<open>
  Modelled from the spec: the statement \<^verbatim>\<open>addEvent\<close>, one more entry at the end of
  the log. Row and actor are cast, \<^verbatim>\<open>$3::uuid\<close> and \<^verbatim>\<open>$4::uuid\<close>.
\<close>

definition log_append :: "log_entry \<Rightarrow> world \<Rightarrow> world" where
  "log_append entry w =
     w\<lparr> current := (current w)\<lparr> db_events := db_events (current w) @ [entry] \<rparr> \<rparr>"

definition exec_addEvent :: "log_entry \<Rightarrow> world \<Rightarrow> unit outcome" where
  "exec_addEvent entry w =
     (if uuid_param (le_rowId entry) \<and> is_uuid (le_actor entry)
      then (Inr (), log_append entry w)
      else (Inl StoreError, w))"

text \<open>
  The log entries of one row: \<^verbatim>\<open>WHERE table_name = $1 AND row_id = $2::uuid\<close>, for a
  second parameter that is the text of a UUID.
\<close>

definition entry_of_row :: "string \<Rightarrow> string \<Rightarrow> log_entry \<Rightarrow> bool" where
  "entry_of_row table rowId entry =
     (to_key (le_table entry) = table \<and> uuid_of (le_rowId entry) = Some (uuid_canon rowId))"

text \<open>
  Modelled from the spec: the statement \<^verbatim>\<open>selectEvents\<close>, name and payload of the
  entries of one row, \<^verbatim>\<open>ORDER BY id ASC\<close>, which is the insertion order of the log.
\<close>

definition exec_selectEvents ::
  "dbstate \<Rightarrow> string \<Rightarrow> string \<Rightarrow> error + (jsval \<times> jsval) list" where
  "exec_selectEvents db table rowId =
     (if is_uuid rowId
      then Inr (map (\<lambda>e. (le_name e, le_data e)) (filter (entry_of_row table rowId) (db_events db)))
      else Inl StoreError)"

section \<open>The command registry\<close>

text \<open>
  A command object as client code passes it to \<^verbatim>\<open>createCommand\<close>. A property the object
  does not have is \<open>None\<close> (or \<^verbatim>\<open>undefined\<close> for \<open>cmd_kind\<close> and \<open>cmd_table\<close>). The
  callbacks receive the connection inside the open transaction; they are modelled as
  reading its working state, and they signal failure by throwing. The result of
  \<open>cmd_mutator\<close> is the mutator object as the list of its fields, each with the
  \<^verbatim>\<open>table\<close> and the \<^verbatim>\<open>id\<close> it names, in enumeration order. The \<^verbatim>\<open>input\<close> property
  (the zod shape) is never read by the engine and is left out.
\<close>

datatype event_factory =
    CreatorEvent "jsval \<Rightarrow> error + esevent"
  | UpdaterEvent "jsval \<Rightarrow> jsval \<Rightarrow> error + esevent"

record command =
  cmd_name :: string
  cmd_kind :: jsval
  cmd_table :: jsval
  cmd_mutator :: "jsval \<Rightarrow> error + (string \<times> string \<times> string) list"
  cmd_validate :: "(dbstate \<Rightarrow> jsval \<Rightarrow> jsval \<Rightarrow> error + jsval) option"
  cmd_planActions :: "(dbstate \<Rightarrow> jsval \<Rightarrow> jsval \<Rightarrow> error + esevent option list) option"
  cmd_event :: "event_factory option"

definition creatorEvent :: "command \<Rightarrow> jsval \<Rightarrow> error + esevent" where
  "creatorEvent command input_data =
     (case get_prop input_data ''table'' of
        Inl e \<Rightarrow> Inl e
      | Inr table \<Rightarrow>
          Inr \<lparr> ev_name = JStr (cmd_name command), ev_kind = cmd_kind command,
                ev_data = rest_without_table input_data, ev_rowId = JUndefined,
                ev_table = nullish_coalesce (cmd_table command) table \<rparr>)"

definition updaterEvent :: "command \<Rightarrow> jsval \<Rightarrow> jsval \<Rightarrow> error + esevent" where
  "updaterEvent command rowId input_data =
     (case get_prop input_data ''table'' of
        Inl e \<Rightarrow> Inl e
      | Inr table \<Rightarrow>
          Inr \<lparr> ev_name = JStr (cmd_name command), ev_kind = cmd_kind command,
                ev_data = rest_without_table input_data, ev_rowId = rowId,
                ev_table = nullish_coalesce (cmd_table command) table \<rparr>)"

definition creatorPlanActions ::
  "command \<Rightarrow> dbstate \<Rightarrow> jsval \<Rightarrow> jsval \<Rightarrow> error + esevent option list" where
  "creatorPlanActions command client input mutator =
     (case cmd_validate command of
        None \<Rightarrow> Inl TypeError
      | Some validate \<Rightarrow>
          (case validate client input mutator of
             Inl e \<Rightarrow> Inl e
           | Inr u \<Rightarrow>
               (case creatorEvent command input of
                  Inl e \<Rightarrow> Inl e
                | Inr ev \<Rightarrow> Inr [Some ev])))"

definition updaterPlanActions ::
  "command \<Rightarrow> dbstate \<Rightarrow> jsval \<Rightarrow> jsval \<Rightarrow> error + esevent option list" where
  "updaterPlanActions command client input mutator =
     (case cmd_validate command of
        None \<Rightarrow> Inl TypeError
      | Some validate \<Rightarrow>
          (case validate client input mutator of
             Inl e \<Rightarrow> Inl e
           | Inr rid \<Rightarrow>
               (case updaterEvent command rid input of
                  Inl e \<Rightarrow> Inl e
                | Inr ev \<Rightarrow> Inr [Some ev])))"

text \<open>
  \<^verbatim>\<open>createCommand(command)\<close>. In the returned object literal the spread of the command
  comes after the synthesized \<^verbatim>\<open>planActions\<close> and before \<^verbatim>\<open>event\<close>: a
  \<^verbatim>\<open>planActions\<close> the command brings replaces the synthesized one, the factory always
  replaces an \<^verbatim>\<open>event\<close> the command brings.
\<close>

definition createCommand :: "command \<Rightarrow> registry \<Rightarrow> (error + command) \<times> registry" where
  "createCommand command reg =
     (if commandNames reg (cmd_name command) = Some True
      then (Inl (DuplicateCommandName (cmd_name command)), reg)
      else
        let reg1 = reg\<lparr> commandNames := (commandNames reg)(cmd_name command \<mapsto> True) \<rparr> in
        if cmd_kind command = JStr ''create'' then
          (Inr (command\<lparr>
                  cmd_planActions :=
                    Some (case cmd_planActions command of
                            None \<Rightarrow> creatorPlanActions command
                          | Some own \<Rightarrow> own),
                  cmd_event := Some (CreatorEvent (creatorEvent command)) \<rparr>), reg1)
        else if cmd_kind command = JStr ''modify'' then
          (Inr (command\<lparr>
                  cmd_planActions :=
                    Some (case cmd_planActions command of
                            None \<Rightarrow> updaterPlanActions command
                          | Some own \<Rightarrow> own),
                  cmd_event := Some (UpdaterEvent (updaterEvent command)) \<rparr>), reg1)
        else (Inr command, reg1))"

section \<open>The dispatcher\<close>

text \<open>
  The first loop of \<^verbatim>\<open>runCommand\<close>: every row the mutator names is selected for update
  and, when it exists, entered into \<^verbatim>\<open>selectedObjects\<close> under its identifier and into
  \<^verbatim>\<open>mutatorData\<close> under its field. A table the schema did not compile has no statement
  and no column list.
\<close>

definition outputData :: "string \<Rightarrow> string list \<Rightarrow> jsval list \<Rightarrow> jsval" where
  "outputData rid names row =
     JObj (foldl (\<lambda>acc (index, sqlField). obj_set acc sqlField (nth_or_undefined row index))
             [(''id'', JStr rid)] (enumerate 0 names))"

fun lockRows ::
  "schema_info \<Rightarrow> dbstate \<Rightarrow> (string \<times> string \<times> string) list
     \<Rightarrow> (string \<rightharpoonup> jsval) \<times> (string \<times> jsval) list
     \<Rightarrow> error + (string \<rightharpoonup> jsval) \<times> (string \<times> jsval) list" where
  "lockRows info db [] acc = Inr acc"
| "lockRows info db ((field, table, rid) # rest) (selectedObjects, mutatorData) =
     (case selectUpdateForTable info table of
        None \<Rightarrow> Inl StoreError
      | Some query \<Rightarrow>
          (case exec_select db table rid of
             Inl e \<Rightarrow> Inl e
           | Inr [] \<Rightarrow> lockRows info db rest (selectedObjects, mutatorData)
           | Inr (row # others) \<Rightarrow>
               (case namesForTable info table of
                  None \<Rightarrow> Inl TypeError
                | Some names \<Rightarrow>
                    lockRows info db rest
                      (selectedObjects(rid \<mapsto> outputData rid names row),
                       obj_set mutatorData field (outputData rid names row)))))"

text \<open>The steps of \<^verbatim>\<open>runCommand\<close> between \<^verbatim>\<open>begin\<close> and the loop over the events.\<close>

definition lockAndPlan ::
  "schema_info \<Rightarrow> command \<Rightarrow> jsval \<Rightarrow> dbstate
     \<Rightarrow> error + (string \<rightharpoonup> jsval) \<times> esevent option list" where
  "lockAndPlan info command input db =
     (case cmd_mutator command input of
        Inl e \<Rightarrow> Inl e
      | Inr mutator \<Rightarrow>
          (case lockRows info db mutator (Map.empty, []) of
             Inl e \<Rightarrow> Inl e
           | Inr (selectedObjects, mutatorData) \<Rightarrow>
               (case cmd_planActions command of
                  None \<Rightarrow> Inl TypeError
                | Some planActions \<Rightarrow>
                    (case planActions db input (JObj mutatorData) of
                       Inl e \<Rightarrow> Inl e
                     | Inr events \<Rightarrow> Inr (selectedObjects, events)))))"

text \<open>\<^verbatim>\<open>names.map((name) => data[name] ?? null)\<close>.\<close>

fun project_row :: "string list \<Rightarrow> jsval \<Rightarrow> error + jsval list" where
  "project_row [] data = Inr []"
| "project_row (name # names) data =
     (case get_prop data name of
        Inl e \<Rightarrow> Inl e
      | Inr v \<Rightarrow>
          (case project_row names data of
             Inl e \<Rightarrow> Inl e
           | Inr vs \<Rightarrow> Inr (nullish_coalesce v JNull # vs)))"

definition rowData_of :: "string list option \<Rightarrow> jsval \<Rightarrow> error + jsval list" where
  "rowData_of names data =
     (case names of None \<Rightarrow> Inl TypeError | Some ns \<Rightarrow> project_row ns data)"

text \<open>\<^verbatim>\<open>result.rows[0]?.[0]\<close>.\<close>

definition first_cell :: "jsval list list \<Rightarrow> jsval" where
  "first_cell rows = (case rows of [] \<Rightarrow> JUndefined | r # others \<Rightarrow> nth_or_undefined r 0)"

definition log_entry_of :: "esevent \<Rightarrow> jsval \<Rightarrow> string \<Rightarrow> nat \<Rightarrow> log_entry" where
  "log_entry_of event rid actorId now =
     \<lparr> le_name = ev_name event, le_table = ev_table event, le_rowId = rid,
       le_actor = actorId, le_data = ev_data event, le_created_at = now \<rparr>"

text \<open>The branch of the loop for a creation event and a creator.\<close>

definition apply_create ::
  "schema_info \<Rightarrow> string \<Rightarrow> nat \<Rightarrow> (jsval \<Rightarrow> error + jsval) \<Rightarrow> esevent
     \<Rightarrow> (string \<rightharpoonup> jsval) \<times> world \<Rightarrow> (string \<rightharpoonup> jsval) outcome" where
  "apply_create info actorId now creator event st =
     (case st of (selectedObjects, w) \<Rightarrow>
        (case creator (ev_data event) of
           Inl e \<Rightarrow> (Inl e, w)
         | Inr data \<Rightarrow>
             (case rowData_of (namesForTable info (to_key (ev_table event))) data of
                Inl e \<Rightarrow> (Inl e, w)
              | Inr rowData \<Rightarrow>
                  (case exec_insert (to_key (ev_table event)) rowData w of
                     (Inl e, w1) \<Rightarrow> (Inl e, w1)
                   | (Inr rows, w1) \<Rightarrow>
                       (case first_cell rows of
                          JStr rid \<Rightarrow>
                            (case exec_addEvent (log_entry_of event (JStr rid) actorId now) w1 of
                               (Inl e, w2) \<Rightarrow> (Inl e, w2)
                             | (Inr u, w2) \<Rightarrow> (Inr selectedObjects, w2))
                        | other \<Rightarrow> (Inl FailedToGetId, w1))))))"

text \<open>
  The branch of the loop for a modification event and an updater. The guard
  \<^verbatim>\<open>if (!prev)\<close> reads \<^verbatim>\<open>selectedObjects[event.rowId]\<close>, which for a name the object
  inherits is a built-in and truthy; the updater is then called with the built-in. For
  such a name the turn still ends in an error, at the latest in the cast of the update
  statement, so what the assignment to \<^verbatim>\<open>selectedObjects[event.rowId]\<close> does to the
  object never reaches another turn.
\<close>

definition apply_modify ::
  "schema_info \<Rightarrow> string \<Rightarrow> nat \<Rightarrow> (jsval \<Rightarrow> jsval \<Rightarrow> error + jsval) \<Rightarrow> esevent
     \<Rightarrow> (string \<rightharpoonup> jsval) \<times> world \<Rightarrow> (string \<rightharpoonup> jsval) outcome" where
  "apply_modify info actorId now updater event st =
     (case st of (selectedObjects, w) \<Rightarrow>
        (case selected_lookup selectedObjects (to_key (ev_rowId event)) of
           None \<Rightarrow> (Inl NotRequestedInMutator, w)
         | Some prev \<Rightarrow>
             if \<not> truthy prev then (Inl NotRequestedInMutator, w)
             else
               (case updater prev (ev_data event) of
                  Inl e \<Rightarrow> (Inl e, w)
                | Inr data \<Rightarrow>
                    (case rowData_of (namesForTable info (to_key (ev_table event))) data of
                       Inl e \<Rightarrow> (Inl e, w)
                     | Inr rowData \<Rightarrow>
                         (case exec_update (to_key (ev_table event)) rowData
                                 (nullish_coalesce (ev_rowId event) JNull) w of
                            (Inl e, w1) \<Rightarrow> (Inl e, w1)
                          | (Inr u, w1) \<Rightarrow>
                              (case exec_addEvent
                                      (log_entry_of event (ev_rowId event) actorId now) w1 of
                                 (Inl e, w2) \<Rightarrow> (Inl e, w2)
                               | (Inr u', w2) \<Rightarrow>
                                   (Inr (selectedObjects(to_key (ev_rowId event) \<mapsto>
                                           spread2 prev data)), w2)))))))"

text \<open>One turn of the loop over the planned events.\<close>

definition applyEvent ::
  "registry \<Rightarrow> schema_info \<Rightarrow> string \<Rightarrow> nat \<Rightarrow> esevent option
     \<Rightarrow> (string \<rightharpoonup> jsval) \<times> world \<Rightarrow> (string \<rightharpoonup> jsval) outcome" where
  "applyEvent reg info actorId now planned st =
     (case planned of
        None \<Rightarrow> (Inr (fst st), snd st)
      | Some event \<Rightarrow>
          if \<not> truthy (ev_name event) then (Inr (fst st), console_log LogInvalidEvent (snd st))
          else
            (case lookup_reducer reg (ev_table event) (ev_name event) of
               None \<Rightarrow> (Inr (fst st), snd st)
             | Some (CreateReducer creator) \<Rightarrow>
                 if ev_kind event = JStr ''create''
                 then apply_create info actorId now creator event st
                 else (Inr (fst st), console_log LogMismatch (snd st))
             | Some (ModifyReducer updater) \<Rightarrow>
                 if ev_kind event = JStr ''modify''
                 then apply_modify info actorId now updater event st
                 else (Inr (fst st), console_log LogMismatch (snd st))))"

fun applyEvents ::
  "registry \<Rightarrow> schema_info \<Rightarrow> string \<Rightarrow> nat \<Rightarrow> esevent option list
     \<Rightarrow> (string \<rightharpoonup> jsval) \<times> world \<Rightarrow> (string \<rightharpoonup> jsval) outcome" where
  "applyEvents reg info actorId now [] st = (Inr (fst st), snd st)"
| "applyEvents reg info actorId now (planned # rest) st =
     (case applyEvent reg info actorId now planned st of
        (Inl e, w) \<Rightarrow> (Inl e, w)
      | (Inr selectedObjects, w) \<Rightarrow> applyEvents reg info actorId now rest (selectedObjects, w))"

text \<open>The \<^verbatim>\<open>try\<close> block of \<^verbatim>\<open>runCommand\<close>, from \<^verbatim>\<open>begin\<close> to \<^verbatim>\<open>commit\<close>.\<close>

definition runCommand_body ::
  "registry \<Rightarrow> schema_info \<Rightarrow> command \<Rightarrow> jsval \<Rightarrow> string \<Rightarrow> nat \<Rightarrow> world \<Rightarrow> jsval outcome" where
  "runCommand_body reg info command input actorId now w =
     (case tx_begin w of
        (Inl e, w1) \<Rightarrow> (Inl e, w1)
      | (Inr u, w1) \<Rightarrow>
          (case lockAndPlan info command input (current w1) of
             Inl e \<Rightarrow> (Inl e, w1)
           | Inr (selectedObjects, events) \<Rightarrow>
               (case applyEvents reg info actorId now events (selectedObjects, w1) of
                  (Inl e, w2) \<Rightarrow> (Inl e, w2)
                | (Inr selectedObjects', w2) \<Rightarrow>
                    (case tx_commit w2 of
                       (Inl e, w3) \<Rightarrow> (Inl e, w3)
                     | (Inr u', w3) \<Rightarrow> (Inr JUndefined, w3)))))"

definition try_catch :: "'a outcome \<Rightarrow> (error \<Rightarrow> world \<Rightarrow> 'a outcome) \<Rightarrow> 'a outcome" where
  "try_catch body handler =
     (case body of (Inl e, w) \<Rightarrow> handler e w | (Inr v, w) \<Rightarrow> (Inr v, w))"

text \<open>
  The \<^verbatim>\<open>catch\<close> block of \<^verbatim>\<open>runCommand\<close> and of \<^verbatim>\<open>reduceRow\<close>: the error goes to the
  console, then the rollback statement is awaited. Nothing guards that statement: when
  it fails, its error leaves the function. Otherwise the function returns \<open>result\<close>.
\<close>

definition catch_rollback :: "jsval \<Rightarrow> error \<Rightarrow> world \<Rightarrow> jsval outcome" where
  "catch_rollback result e w =
     (case tx_rollback (console_log (LogFailed e) w) of
        (Inl e', w') \<Rightarrow> (Inl e', w')
      | (Inr u, w') \<Rightarrow> (Inr result, w'))"

text \<open>
  \<^verbatim>\<open>runCommand(client, command, input, actorId)\<close>: what the returned promise settles to
  (\<open>Inr\<close> a value it resolves with, \<open>Inl\<close> an error it rejects with), and the world
  after the call. \<open>now\<close> is the \<^verbatim>\<open>new Date()\<close> taken at entry.
\<close>

definition runCommand ::
  "registry \<Rightarrow> schema_info \<Rightarrow> command \<Rightarrow> jsval \<Rightarrow> string \<Rightarrow> nat \<Rightarrow> world \<Rightarrow> jsval outcome" where
  "runCommand reg info command input actorId now w =
     try_catch (runCommand_body reg info command input actorId now w) (catch_rollback JUndefined)"

section \<open>The row reconstructor\<close>

definition reduceRow_body :: "registry \<Rightarrow> string \<Rightarrow> string \<Rightarrow> world \<Rightarrow> jsval outcome" where
  "reduceRow_body reg table rowId w =
     (case tx_begin w of
        (Inl e, w1) \<Rightarrow> (Inl e, w1)
      | (Inr u, w1) \<Rightarrow>
          (case exec_selectEvents (current w1) table rowId of
             Inl e \<Rightarrow> (Inl e, w1)
           | Inr rows \<Rightarrow>
               (case tx_commit
                       (foldl (\<lambda>acc (name, data). console_log (LogValues [name, data]) acc)
                          w1 rows) of
                  (Inl e, w3) \<Rightarrow> (Inl e, w3)
                | (Inr u', w3) \<Rightarrow> (Inr (JObj []), w3))))"

definition reduceRow :: "registry \<Rightarrow> string \<Rightarrow> string \<Rightarrow> world \<Rightarrow> jsval outcome" where
  "reduceRow reg table rowId w =
     try_catch (reduceRow_body reg table rowId w) (catch_rollback (JObj []))"

section \<open>Conditions and relations the properties are stated with\<close>

text \<open>
  The loop has reached a creation event with a creator registered for it, the creator
  and the projection onto the columns did not throw, the insert statement was executed,
  and the first cell of the first row of its result is not a string.
\<close>

definition insert_without_id :: "registry \<Rightarrow> schema_info \<Rightarrow> esevent \<Rightarrow> world \<Rightarrow> bool" where
  "insert_without_id reg info ev w =
     (truthy (ev_name ev) \<and> ev_kind ev = JStr ''create'' \<and>
      (case lookup_reducer reg (ev_table ev) (ev_name ev) of
         Some (CreateReducer creator) \<Rightarrow>
           (case creator (ev_data ev) of
              Inr data \<Rightarrow>
                (case rowData_of (namesForTable info (to_key (ev_table ev))) data of
                   Inr rowData \<Rightarrow>
                     (case exec_insert (to_key (ev_table ev)) rowData w of
                        (Inr rows, w1) \<Rightarrow>
                          (case first_cell rows of JStr rid \<Rightarrow> False | other \<Rightarrow> True)
                      | (Inl e, w1) \<Rightarrow> False)
                 | Inl e \<Rightarrow> False)
            | Inl e \<Rightarrow> False)
       | other \<Rightarrow> False))"

text \<open>
  The loop has reached a modification event with an updater registered for it, and the
  row identifier of the event is not among the locked rows, the own properties of
  \<^verbatim>\<open>selectedObjects\<close>.
\<close>

definition modify_not_locked :: "registry \<Rightarrow> esevent \<Rightarrow> (string \<rightharpoonup> jsval) \<Rightarrow> bool" where
  "modify_not_locked reg ev selectedObjects =
     (truthy (ev_name ev) \<and> ev_kind ev = JStr ''modify'' \<and>
      (case lookup_reducer reg (ev_table ev) (ev_name ev) of
         Some (ModifyReducer updater) \<Rightarrow> True
       | other \<Rightarrow> False) \<and>
      selectedObjects (to_key (ev_rowId ev)) = None)"

text \<open>
  A log entry records an event of this call: name, table and payload are those of the
  event, actor and time those of the call, and the row is the row of a modification
  event, or a string identifier for a creation event.
\<close>

definition records_event :: "string \<Rightarrow> nat \<Rightarrow> esevent \<Rightarrow> log_entry \<Rightarrow> bool" where
  "records_event actorId now ev entry =
     (entry = log_entry_of ev (le_rowId entry) actorId now \<and>
      (if ev_kind ev = JStr ''modify'' then le_rowId entry = ev_rowId ev
       else ev_kind ev = JStr ''create'' \<and>
            (case le_rowId entry of JStr rid \<Rightarrow> True | other \<Rightarrow> False)))"

section \<open>A small instance\<close>

text \<open>
  One table \<^verbatim>\<open>items\<close> with the columns \<^verbatim>\<open>name\<close> and \<^verbatim>\<open>value\<close>, a create command
  \<^verbatim>\<open>addItem\<close> whose reducer inserts its payload, a modify command \<^verbatim>\<open>bump\<close> whose
  reducer adds one to the previous \<^verbatim>\<open>value\<close>, and a reducer \<^verbatim>\<open>setName\<close> that merges its
  payload. The rows \<open>ex_r1\<close> (stored), \<open>ex_r2\<close> (the next identifier of the store)
  and \<open>ex_r9\<close> (no row) and the actor have UUIDs for identifiers. The theorems below
  are instantiated on it.
\<close>

definition ex_r1 :: string where
  "ex_r1 = ''00000000-0000-0000-0000-000000000001''"

definition ex_r2 :: string where
  "ex_r2 = ''00000000-0000-0000-0000-000000000002''"

definition ex_r9 :: string where
  "ex_r9 = ''00000000-0000-0000-0000-000000000009''"

definition ex_actor :: string where
  "ex_actor = ''00000000-0000-0000-0000-0000000000aa''"

definition ex_schema :: "string schema" where
  "ex_schema =
     [(''items'', [(''name'', ''text''), (''value'', ''int4'')]),
      (''events'', [(''created_at'', ''timestamp''), (''name'', ''text''),
                    (''table_name'', ''text''), (''row_id'', ''uuid''),
                    (''actor_id'', ''uuid''), (''data'', ''jsonb'')])]"

definition ex_info :: schema_info where
  "ex_info = processSchema ex_schema"

definition ex_creator :: "jsval \<Rightarrow> error + jsval" where
  "ex_creator payload = Inr payload"

definition ex_updater :: "jsval \<Rightarrow> jsval \<Rightarrow> error + jsval" where
  "ex_updater previous payload =
     (case get_prop previous ''value'' of
        Inr (JNum n) \<Rightarrow> Inr (JObj [(''value'', JNum (n + 1))])
      | other \<Rightarrow> Inl (Thrown ''value is not a number''))"

definition ex_registry0 :: registry where
  "ex_registry0 = \<lparr> commandNames = Map.empty, reducers = Map.empty \<rparr>"

definition ex_setter :: "jsval \<Rightarrow> jsval \<Rightarrow> error + jsval" where
  "ex_setter previous payload = Inr payload"

definition ex_registry :: registry where
  "ex_registry =
     fst (snd (reducer_updater ''items'' ''setName'' ex_setter
       (fst (snd (reducer_updater ''items'' ''bump'' ex_updater
         (fst (snd (reducer_creator ''items'' ''addItem'' ex_creator ex_registry0))))))))"

definition ex_addItem :: command where
  "ex_addItem =
     \<lparr> cmd_name = ''addItem'', cmd_kind = JStr ''create'', cmd_table = JStr ''items'',
       cmd_mutator = (\<lambda>input. Inr []),
       cmd_validate = Some (\<lambda>client input mutator. Inr JUndefined),
       cmd_planActions = None, cmd_event = None \<rparr>"

definition ex_bump :: command where
  "ex_bump =
     \<lparr> cmd_name = ''bump'', cmd_kind = JStr ''modify'', cmd_table = JStr ''items'',
       cmd_mutator = (\<lambda>input. case get_prop input ''id'' of
                                 Inr (JStr rid) \<Rightarrow> Inr [(''target'', ''items'', rid)]
                               | other \<Rightarrow> Inl (Thrown ''no id'')),
       cmd_validate = Some (\<lambda>client input mutator. get_prop input ''id''),
       cmd_planActions = None, cmd_event = None \<rparr>"

definition ex_db :: dbstate where
  "ex_db = \<lparr> db_rows = [(''items'', ex_r1) \<mapsto> [JStr ''a'', JNum 5]], db_events = [] \<rparr>"

definition ex_world :: world where
  "ex_world = \<lparr> committed = ex_db, current = ex_db, id_supply = [Some ex_r2], console = [],
       connected = True \<rparr>"

text \<open>The two commands as \<^verbatim>\<open>createCommand\<close> returns them.\<close>

definition ex_addItem_cmd :: command where
  "ex_addItem_cmd =
     (case fst (createCommand ex_addItem ex_registry0) of Inr d \<Rightarrow> d | Inl e \<Rightarrow> ex_addItem)"

definition ex_bump_cmd :: command where
  "ex_bump_cmd =
     (case fst (createCommand ex_bump ex_registry0) of Inr d \<Rightarrow> d | Inl e \<Rightarrow> ex_bump)"

text \<open>
  A generic command whose planning returns an event no reducer is registered for, and a
  generic command that plans several events at once, two of them for the row \<open>ex_r1\<close>.
\<close>

definition ex_rename_event :: esevent where
  "ex_rename_event =
     \<lparr> ev_name = JStr ''rename'', ev_kind = JStr ''modify'', ev_data = JObj [(''name'', JStr ''z'')],
       ev_rowId = JStr ex_r1, ev_table = JStr ''items'' \<rparr>"

definition ex_rename_cmd :: command where
  "ex_rename_cmd =
     \<lparr> cmd_name = ''rename'', cmd_kind = JUndefined, cmd_table = JUndefined,
       cmd_mutator = (\<lambda>input. Inr [(''target'', ''items'', ex_r1)]),
       cmd_validate = None,
       cmd_planActions = Some (\<lambda>client input mutator. Inr [Some ex_rename_event]),
       cmd_event = None \<rparr>"

definition ex_bump_event :: "string \<Rightarrow> esevent" where
  "ex_bump_event tag =
     \<lparr> ev_name = JStr ''bump'', ev_kind = JStr ''modify'', ev_data = JObj [(''tag'', JStr tag)],
       ev_rowId = JStr ex_r1, ev_table = JStr ''items'' \<rparr>"

definition ex_add_event :: esevent where
  "ex_add_event =
     \<lparr> ev_name = JStr ''addItem'', ev_kind = JStr ''create'',
       ev_data = JObj [(''name'', JStr ''b''), (''value'', JNum 1)],
       ev_rowId = JUndefined, ev_table = JStr ''items'' \<rparr>"

definition ex_batch_cmd :: command where
  "ex_batch_cmd =
     \<lparr> cmd_name = ''batch'', cmd_kind = JUndefined, cmd_table = JUndefined,
       cmd_mutator = (\<lambda>input. Inr [(''target'', ''items'', ex_r1)]),
       cmd_validate = None,
       cmd_planActions = Some (\<lambda>client input mutator.
          Inr [Some (ex_bump_event ''first''), None, Some ex_rename_event,
               Some ex_add_event, Some (ex_bump_event ''second'')]),
       cmd_event = None \<rparr>"

text \<open>A generic command that plans an update of \<open>ex_r1\<close> and then one of a row it did not lock.\<close>

definition ex_stray_event :: esevent where
  "ex_stray_event =
     \<lparr> ev_name = JStr ''bump'', ev_kind = JStr ''modify'', ev_data = JObj [],
       ev_rowId = JStr ex_r9, ev_table = JStr ''items'' \<rparr>"

definition ex_stray_cmd :: command where
  "ex_stray_cmd =
     \<lparr> cmd_name = ''stray'', cmd_kind = JUndefined, cmd_table = JUndefined,
       cmd_mutator = (\<lambda>input. Inr [(''target'', ''items'', ex_r1)]),
       cmd_validate = None,
       cmd_planActions = Some (\<lambda>client input mutator.
          Inr [Some (ex_bump_event ''first''), Some ex_stray_event]),
       cmd_event = None \<rparr>"

definition ex_locked_r1 :: jsval where
  "ex_locked_r1 = JObj [(''id'', JStr ex_r1), (''name'', JStr ''a''), (''value'', JNum 5)]"

text \<open>A generic command that plans one \<^verbatim>\<open>setName\<close> event for the row \<open>ex_r1\<close>.\<close>

definition ex_setName_event :: esevent where
  "ex_setName_event =
     \<lparr> ev_name = JStr ''setName'', ev_kind = JStr ''modify'', ev_data = JObj [(''name'', JStr ''z'')],
       ev_rowId = JStr ex_r1, ev_table = JStr ''items'' \<rparr>"

definition ex_setName_cmd :: command where
  "ex_setName_cmd =
     \<lparr> cmd_name = ''setName'', cmd_kind = JUndefined, cmd_table = JUndefined,
       cmd_mutator = (\<lambda>input. Inr [(''target'', ''items'', ex_r1)]),
       cmd_validate = None,
       cmd_planActions = Some (\<lambda>client input mutator. Inr [Some ex_setName_event]),
       cmd_event = None \<rparr>"

definition ex_bump_r1_event :: esevent where
  "ex_bump_r1_event =
     \<lparr> ev_name = JStr ''bump'', ev_kind = JStr ''modify'', ev_data = JObj [(''id'', JStr ex_r1)],
       ev_rowId = JStr ex_r1, ev_table = JStr ''items'' \<rparr>"

text \<open>
  A generic command that plans a \<^verbatim>\<open>setName\<close> event whose row identifier is a name
  every object inherits.
\<close>

definition ex_inherited_event :: esevent where
  "ex_inherited_event =
     \<lparr> ev_name = JStr ''setName'', ev_kind = JStr ''modify'', ev_data = JObj [(''name'', JStr ''z'')],
       ev_rowId = JStr ''constructor'', ev_table = JStr ''items'' \<rparr>"

definition ex_inherited_cmd :: command where
  "ex_inherited_cmd =
     \<lparr> cmd_name = ''inherited'', cmd_kind = JUndefined, cmd_table = JUndefined,
       cmd_mutator = (\<lambda>input. Inr [(''target'', ''items'', ex_r1)]),
       cmd_validate = None,
       cmd_planActions = Some (\<lambda>client input mutator. Inr [Some ex_inherited_event]),
       cmd_event = None \<rparr>"

section \<open>Properties of the schema compiler\<close>

lemma descriptor_compile_other:
  "t \<noteq> fst entry \<or> t = ''events'' \<Longrightarrow> descriptor (compile_table info entry) t = descriptor info t"
  by (cases entry) (auto simp: compile_table_def descriptor_def Let_def)

lemma descriptor_compile_same:
  "t \<noteq> ''events'' \<Longrightarrow>
   descriptor (compile_table info (t, cols)) t =
     (Some (map fst cols), Some (select_stmt t (map fst cols)),
      Some (insert_stmt t (map fst cols)), Some (update_stmt t (map fst cols)))"
  by (simp add: compile_table_def descriptor_def Let_def)

lemma descriptor_foldl_other:
  "t \<notin> fst ` set schema \<or> t = ''events'' \<Longrightarrow>
   descriptor (foldl compile_table info schema) t = descriptor info t"
proof (induction schema arbitrary: info)
  case Nil
  then show ?case by simp
next
  case (Cons e es)
  then have "descriptor (foldl compile_table (compile_table info e) es) t
      = descriptor (compile_table info e) t"
    by auto
  also have "\<dots> = descriptor info t"
    using Cons.prems by (intro descriptor_compile_other) auto
  finally show ?case by simp
qed

lemma descriptor_foldl_same:
  "distinct (map fst schema) \<Longrightarrow> (t, cols) \<in> set schema \<Longrightarrow> t \<noteq> ''events'' \<Longrightarrow>
   descriptor (foldl compile_table info schema) t =
     (Some (map fst cols), Some (select_stmt t (map fst cols)),
      Some (insert_stmt t (map fst cols)), Some (update_stmt t (map fst cols)))"
proof (induction schema arbitrary: info)
  case Nil
  then show ?case by simp
next
  case (Cons e es)
  show ?case
  proof (cases "e = (t, cols)")
    case True
    with Cons.prems have "t \<notin> fst ` set es" by auto
    then have "descriptor (foldl compile_table (compile_table info e) es) t
        = descriptor (compile_table info e) t"
      by (intro descriptor_foldl_other) simp
    with True Cons.prems(3) show ?thesis
      by (simp add: descriptor_compile_same)
  next
    case False
    with Cons.prems have "(t, cols) \<in> set es" "distinct (map fst es)" by auto
    then show ?thesis
      using Cons.IH [of "compile_table info e"] Cons.prems(3) by simp
  qed
qed

lemma descriptor_empty: "descriptor empty_info t = (None, None, None, None)"
  by (simp add: descriptor_def empty_info_def)

lemma insertionValues_nth:
  "i < length names \<Longrightarrow> insertionValues names ! i = ''$'' @ decimal (i + 1)"
  by (simp add: insertionValues_def nth_enumerate_eq)

lemma updateValues_nth:
  "i < length names \<Longrightarrow>
   updateValues names ! i =
     names ! i @ ''=COALESCE($'' @ decimal (i + 1) @ '', '' @ names ! i @ '')''"
  by (simp add: updateValues_def nth_enumerate_eq)

text \<open>
  C8. \<^verbatim>\<open>processSchema\<close> is a function of the schema alone. It holds nothing for the
  reserved table \<^verbatim>\<open>events\<close> nor for a name that is not a table of the schema; for every
  other table it holds the column names in declaration order and exactly one statement
  of each kind: the select of all columns by row id \<^verbatim>\<open>FOR UPDATE\<close>, the insert of all
  columns in column order \<^verbatim>\<open>RETURNING id::text\<close>, and the update that sets column
  number \<open>i\<close> to \<^verbatim>\<open>COALESCE\<close> of parameter \<open>i + 1\<close> and the column, with the row id as
  the parameter after the last column.
\<close>

theorem processSchema_compiles:
  assumes "distinct (map fst schema)"
  shows "descriptor (processSchema schema) ''events'' = (None, None, None, None) \<and>
    (\<forall>t. t \<notin> fst ` set schema \<longrightarrow>
       descriptor (processSchema schema) t = (None, None, None, None)) \<and>
    (\<forall>(t, cols) \<in> set schema. t \<noteq> ''events'' \<longrightarrow>
       descriptor (processSchema schema) t =
         (Some (map fst cols),
          Some (nl @ ''      SELECT '' @ join '','' (map fst cols) @
                nl @ ''      FROM '' @ t @
                nl @ ''      WHERE id = $1::uuid FOR UPDATE'' @
                nl @ ''    ''),
          Some (nl @ ''      INSERT INTO '' @ t @
                nl @ ''      ('' @ join '','' (map fst cols) @ '')'' @
                nl @ ''      VALUES ('' @ join '','' (insertionValues (map fst cols)) @ '')'' @
                nl @ ''      RETURNING id::text'' @
                nl @ ''    ''),
          Some (nl @ ''      UPDATE '' @ t @
                nl @ ''      SET '' @ join '','' (updateValues (map fst cols)) @
                nl @ ''      WHERE id = $'' @ decimal (length cols + 1) @ ''::uuid'' @
                nl @ ''    '')) \<and>
       length (insertionValues (map fst cols)) = length cols \<and>
       length (updateValues (map fst cols)) = length cols \<and>
       (\<forall>i < length cols.
          insertionValues (map fst cols) ! i = ''$'' @ decimal (i + 1) \<and>
          updateValues (map fst cols) ! i =
            fst (cols ! i) @ ''=COALESCE($'' @ decimal (i + 1) @ '', '' @
            fst (cols ! i) @ '')''))"
proof (intro conjI allI impI ballI)
  show "descriptor (processSchema schema) ''events'' = (None, None, None, None)"
    by (simp add: processSchema_def descriptor_foldl_other descriptor_empty)
next
  fix t assume "t \<notin> fst ` set schema"
  then show "descriptor (processSchema schema) t = (None, None, None, None)"
    by (simp add: processSchema_def descriptor_foldl_other descriptor_empty)
next
  fix entry assume entry: "entry \<in> set schema"
  obtain t cols where tc: "entry = (t, cols)" by (cases entry)
  have main: "t \<noteq> ''events'' \<Longrightarrow>
      descriptor (processSchema schema) t =
        (Some (map fst cols), Some (select_stmt t (map fst cols)),
         Some (insert_stmt t (map fst cols)), Some (update_stmt t (map fst cols)))"
    using assms entry tc by (simp add: processSchema_def descriptor_foldl_same)
  have nths: "\<forall>i < length cols.
      insertionValues (map fst cols) ! i = ''$'' @ decimal (i + 1) \<and>
      updateValues (map fst cols) ! i =
        fst (cols ! i) @ ''=COALESCE($'' @ decimal (i + 1) @ '', '' @
        fst (cols ! i) @ '')''"
    by (simp add: insertionValues_nth updateValues_nth)
  have lens: "length (insertionValues (map fst cols)) = length cols"
    "length (updateValues (map fst cols)) = length cols"
    by (simp_all add: insertionValues_def updateValues_def)
  show "case entry of (t, cols) \<Rightarrow> t \<noteq> ''events'' \<longrightarrow>
       descriptor (processSchema schema) t =
         (Some (map fst cols),
          Some (nl @ ''      SELECT '' @ join '','' (map fst cols) @
                nl @ ''      FROM '' @ t @
                nl @ ''      WHERE id = $1::uuid FOR UPDATE'' @
                nl @ ''    ''),
          Some (nl @ ''      INSERT INTO '' @ t @
                nl @ ''      ('' @ join '','' (map fst cols) @ '')'' @
                nl @ ''      VALUES ('' @ join '','' (insertionValues (map fst cols)) @ '')'' @
                nl @ ''      RETURNING id::text'' @
                nl @ ''    ''),
          Some (nl @ ''      UPDATE '' @ t @
                nl @ ''      SET '' @ join '','' (updateValues (map fst cols)) @
                nl @ ''      WHERE id = $'' @ decimal (length cols + 1) @ ''::uuid'' @
                nl @ ''    '')) \<and>
       length (insertionValues (map fst cols)) = length cols \<and>
       length (updateValues (map fst cols)) = length cols \<and>
       (\<forall>i < length cols.
          insertionValues (map fst cols) ! i = ''$'' @ decimal (i + 1) \<and>
          updateValues (map fst cols) ! i =
            fst (cols ! i) @ ''=COALESCE($'' @ decimal (i + 1) @ '', '' @
            fst (cols ! i) @ '')'')"
    unfolding tc prod.case
    using main nths lens
    by (simp add: select_stmt_def insert_stmt_def update_stmt_def)
qed

theorem processSchema_compiles_witness:
  "distinct (map fst ex_schema) \<and>
   descriptor (processSchema ex_schema) ''events'' = (None, None, None, None) \<and>
   descriptor (processSchema ex_schema) ''items'' =
     (Some [''name'', ''value''],
      Some ''\<newline>      SELECT name,value\<newline>      FROM items\<newline>      WHERE id = $1::uuid FOR UPDATE\<newline>    '',
      Some ''\<newline>      INSERT INTO items\<newline>      (name,value)\<newline>      VALUES ($1,$2)\<newline>      RETURNING id::text\<newline>    '',
      Some ''\<newline>      UPDATE items\<newline>      SET name=COALESCE($1, name),value=COALESCE($2, value)\<newline>      WHERE id = $3::uuid\<newline>    '')"
proof -
  have d: "distinct (map fst ex_schema)"
    by (simp add: ex_schema_def)
  have m: "(''items'', [(''name'', ''text''), (''value'', ''int4'')]) \<in> set ex_schema"
    by (simp add: ex_schema_def)
  from processSchema_compiles [OF d] m
  have "descriptor (processSchema ex_schema) ''events'' = (None, None, None, None)"
    and "descriptor (processSchema ex_schema) ''items'' =
      (Some (map fst [(''name'', ''text''), (''value'', ''int4'')]),
       Some (nl @ ''      SELECT '' @ join '','' (map fst [(''name'', ''text''), (''value'', ''int4'')]) @
             nl @ ''      FROM '' @ ''items'' @
             nl @ ''      WHERE id = $1::uuid FOR UPDATE'' @
             nl @ ''    ''),
       Some (nl @ ''      INSERT INTO '' @ ''items'' @
             nl @ ''      ('' @ join '','' (map fst [(''name'', ''text''), (''value'', ''int4'')]) @ '')'' @
             nl @ ''      VALUES ('' @ join '','' (insertionValues (map fst [(''name'', ''text''), (''value'', ''int4'')])) @ '')'' @
             nl @ ''      RETURNING id::text'' @
             nl @ ''    ''),
       Some (nl @ ''      UPDATE '' @ ''items'' @
             nl @ ''      SET '' @ join '','' (updateValues (map fst [(''name'', ''text''), (''value'', ''int4'')])) @
             nl @ ''      WHERE id = $'' @ decimal (length [(''name'', ''text''), (''value'', ''int4'')] + 1) @ ''::uuid'' @
             nl @ ''    ''))"
    by fastforce+
  then show ?thesis
    using d
    by (simp add: nl_def insertionValues_def updateValues_def enumerate_eq_zip
        decimal.simps digit_char_def)
qed

section \<open>The store operations, frame properties\<close>

lemma tx_open [simp]:
  "connected w \<Longrightarrow> tx_begin w = (Inr (), discard_work w)"
  "connected w \<Longrightarrow> tx_commit w = (Inr (), keep_work w)"
  "connected w \<Longrightarrow> tx_rollback w = (Inr (), discard_work w)"
  by (simp_all add: tx_begin_def tx_commit_def tx_rollback_def)

lemma tx_closed [simp]:
  "\<not> connected w \<Longrightarrow> tx_begin w = (Inl StoreError, w)"
  "\<not> connected w \<Longrightarrow> tx_commit w = (Inl StoreError, w)"
  "\<not> connected w \<Longrightarrow> tx_rollback w = (Inl StoreError, w)"
  by (simp_all add: tx_begin_def tx_commit_def tx_rollback_def)

lemma discard_work_fields [simp]:
  "committed (discard_work w) = committed w"
  "current (discard_work w) = committed w"
  "connected (discard_work w) = connected w"
  "id_supply (discard_work w) = id_supply w"
  "console (discard_work w) = console w"
  by (simp_all add: discard_work_def)

lemma keep_work_fields [simp]:
  "committed (keep_work w) = current w"
  "current (keep_work w) = current w"
  "connected (keep_work w) = connected w"
  "id_supply (keep_work w) = id_supply w"
  "console (keep_work w) = console w"
  by (simp_all add: keep_work_def)

lemma console_log_fields [simp]:
  "committed (console_log l w) = committed w"
  "current (console_log l w) = current w"
  "connected (console_log l w) = connected w"
  "id_supply (console_log l w) = id_supply w"
  "console (console_log l w) = console w @ [l]"
  by (simp_all add: console_log_def)

lemma log_append_fields [simp]:
  "committed (log_append entry w) = committed w"
  "connected (log_append entry w) = connected w"
  "id_supply (log_append entry w) = id_supply w"
  "console (log_append entry w) = console w"
  "db_rows (current (log_append entry w)) = db_rows (current w)"
  "db_events (current (log_append entry w)) = db_events (current w) @ [entry]"
  by (simp_all add: log_append_def)

lemma row_update_fields [simp]:
  "committed (row_update table params rid w) = committed w"
  "connected (row_update table params rid w) = connected w"
  "id_supply (row_update table params rid w) = id_supply w"
  "console (row_update table params rid w) = console w"
  "db_events (current (row_update table params rid w)) = db_events (current w)"
  by (simp_all add: row_update_def split: option.splits)

lemma exec_update_frame:
  "exec_update table params rid w = (r, w') \<Longrightarrow>
   committed w' = committed w \<and> connected w' = connected w \<and> console w' = console w \<and>
   id_supply w' = id_supply w \<and> db_events (current w') = db_events (current w)"
  by (auto simp: exec_update_def split: if_splits)

lemma exec_addEvent_frame:
  "exec_addEvent entry w = (r, w') \<Longrightarrow>
   committed w' = committed w \<and> connected w' = connected w \<and> console w' = console w \<and>
   id_supply w' = id_supply w \<and> db_rows (current w') = db_rows (current w)"
  by (auto simp: exec_addEvent_def split: if_splits)

lemma exec_addEvent_log:
  assumes "exec_addEvent entry w = (Inr u, w')"
  shows "db_events (current w') = db_events (current w) @ [entry]"
  using assms
  by (auto simp: exec_addEvent_def split: if_splits)

lemma exec_insert_frame:
  "exec_insert table rowData w = (r, w') \<Longrightarrow>
   committed w' = committed w \<and> connected w' = connected w \<and> console w' = console w \<and>
   db_events (current w') = db_events (current w)"
  by (auto simp: exec_insert_def split: list.splits option.splits if_splits)

lemma apply_create_frame:
  "apply_create info actorId now creator event (sel, w) = (r, w') \<Longrightarrow>
   committed w' = committed w \<and> connected w' = connected w"
  by (auto simp: apply_create_def split: sum.splits prod.splits jsval.splits
      dest!: exec_insert_frame exec_addEvent_frame)

lemma apply_modify_frame:
  "apply_modify info actorId now updater event (sel, w) = (r, w') \<Longrightarrow>
   committed w' = committed w \<and> connected w' = connected w"
  by (auto simp: apply_modify_def split: sum.splits prod.splits option.splits if_splits
      dest!: exec_update_frame exec_addEvent_frame)

lemma applyEvent_frame:
  "applyEvent reg info actorId now planned (sel, w) = (r, w') \<Longrightarrow>
   committed w' = committed w \<and> connected w' = connected w"
  by (auto simp: applyEvent_def split: option.splits if_splits reducer.splits
      dest!: apply_create_frame apply_modify_frame)

lemma applyEvents_frame:
  "applyEvents reg info actorId now events (sel, w) = (r, w') \<Longrightarrow>
   committed w' = committed w \<and> connected w' = connected w"
proof (induction events arbitrary: sel w)
  case Nil
  then show ?case by simp
next
  case (Cons planned rest)
  obtain r1 w1 where step: "applyEvent reg info actorId now planned (sel, w) = (r1, w1)"
    by (cases "applyEvent reg info actorId now planned (sel, w)")
  then have c1: "committed w1 = committed w" "connected w1 = connected w"
    using applyEvent_frame by blast+
  show ?case
  proof (cases r1)
    case (Inl e)
    with Cons.prems step c1 show ?thesis by simp
  next
    case (Inr sel1)
    with Cons.prems step have "applyEvents reg info actorId now rest (sel1, w1) = (r, w')"
      by simp
    then have "committed w' = committed w1 \<and> connected w' = connected w1" by (rule Cons.IH)
    with c1 show ?thesis by simp
  qed
qed

text \<open>
  The \<^verbatim>\<open>try\<close> block on a closed connection, and what it leaves behind on an open one.
\<close>

lemma runCommand_body_closed:
  "\<not> connected w \<Longrightarrow>
   runCommand_body reg info command input actorId now w = (Inl StoreError, w)"
  by (simp add: runCommand_body_def)

lemma runCommand_body_connected:
  "runCommand_body reg info command input actorId now w = (r, w') \<Longrightarrow>
   connected w' = connected w"
  by (cases "connected w")
     (auto simp: runCommand_body_def split: sum.splits prod.splits
      dest!: applyEvents_frame)

lemma runCommand_body_committed_on_error:
  "runCommand_body reg info command input actorId now w = (Inl e, w') \<Longrightarrow>
   committed w' = committed w"
  by (cases "connected w")
     (auto simp: runCommand_body_def split: sum.splits prod.splits
      dest!: applyEvents_frame)

lemma runCommand_body_committed_on_success:
  "runCommand_body reg info command input actorId now w = (Inr v, w') \<Longrightarrow>
   v = JUndefined \<and> connected w \<and> committed w' = current w'"
  by (cases "connected w")
     (auto simp: runCommand_body_def split: sum.splits prod.splits
      dest!: applyEvents_frame)

section \<open>The row reconstructor\<close>

lemma print_rows_fields:
  "committed (foldl (\<lambda>acc (name, data). console_log (LogValues [name, data]) acc) w rows)
     = committed w \<and>
   current (foldl (\<lambda>acc (name, data). console_log (LogValues [name, data]) acc) w rows)
     = current w \<and>
   connected (foldl (\<lambda>acc (name, data). console_log (LogValues [name, data]) acc) w rows)
     = connected w"
  by (induction rows arbitrary: w) (auto simp: case_prod_beta)

text \<open>
  C1. \<^verbatim>\<open>reduceRow\<close> is claimed to fold the log entries of the row through the
  reducers of the table and to fail on a row without entries. The function in the source
  reads the entries and prints them; whatever the table, the row, the registry and the
  log are, on an open connection it resolves with the empty object, and it leaves the
  committed state as it was. (On a closed connection the rollback statement of its
  \<^verbatim>\<open>catch\<close> block fails and the promise rejects.)
\<close>

theorem reduceRow_returns_empty_object:
  "fst (reduceRow reg table rowId w) = (if connected w then Inr (JObj []) else Inl StoreError) \<and>
   committed (snd (reduceRow reg table rowId w)) = committed w"
proof (cases "connected w")
  case False
  then show ?thesis
    by (simp add: reduceRow_def reduceRow_body_def try_catch_def catch_rollback_def)
next
  case True
  show ?thesis
  proof (cases "exec_selectEvents (committed w) table rowId")
    case (Inl e)
    with True show ?thesis
      by (simp add: reduceRow_def reduceRow_body_def try_catch_def catch_rollback_def)
  next
    case (Inr rows)
    with True show ?thesis
      by (simp add: reduceRow_def reduceRow_body_def try_catch_def catch_rollback_def
          print_rows_fields)
  qed
qed

section \<open>Registration\<close>

lemma createCommand_registers:
  "commandNames (snd (createCommand c reg)) (cmd_name c) = Some True"
  by (simp add: createCommand_def Let_def)

lemma createCommand_duplicate:
  "commandNames reg (cmd_name c) = Some True \<Longrightarrow>
   createCommand c reg = (Inl (DuplicateCommandName (cmd_name c)), reg)"
  by (simp add: createCommand_def)

lemma addReducer_second:
  assumes "addReducer table name red1 reg = (r1, reg1, out1)"
  shows "addReducer table name red2 reg1 =
           (Some DuplicateEventHandler, reg1, [LogValues [JStr name, JStr table]])"
    and "r1 = None \<Longrightarrow> lookup_reducer reg1 (JStr table) (JStr name) = Some red1"
    and "r1 \<noteq> None \<Longrightarrow> r1 = Some DuplicateEventHandler \<and>
           lookup_reducer reg1 (JStr table) (JStr name) = lookup_reducer reg (JStr table) (JStr name)"
  using assms
  by (auto simp: addReducer_def Let_def lookup_reducer_def fun_upd_idem
      split: option.splits)

text \<open>
  C7. After \<^verbatim>\<open>createCommand\<close> was called with a name, a second call with the same
  name throws the duplicate-command error, changes nothing, and the name stays registered.
  After \<^verbatim>\<open>addReducer\<close> was called for a table and an event name, a second call for the
  same pair throws the duplicate-handler error and changes nothing: when the first call
  registered its reducer, that reducer is still the one the dispatcher finds.
\<close>

theorem duplicate_registration_fails:
  "(cmd_name c2 = cmd_name c1 \<longrightarrow>
      (case createCommand c1 reg of (r1, reg1) \<Rightarrow>
         createCommand c2 reg1 = (Inl (DuplicateCommandName (cmd_name c1)), reg1) \<and>
         commandNames reg1 (cmd_name c1) = Some True)) \<and>
   (case addReducer table name red1 reg of (r1, reg1, out1) \<Rightarrow>
      (case addReducer table name red2 reg1 of (r2, reg2, out2) \<Rightarrow>
         r2 = Some DuplicateEventHandler \<and> reg2 = reg1 \<and>
         (r1 = None \<longrightarrow> lookup_reducer reg2 (JStr table) (JStr name) = Some red1)))"
proof (intro conjI impI)
  assume same: "cmd_name c2 = cmd_name c1"
  obtain r1 reg1 where first: "createCommand c1 reg = (r1, reg1)"
    by (cases "createCommand c1 reg")
  have "commandNames reg1 (cmd_name c1) = Some True"
    using createCommand_registers [of c1 reg] first by simp
  then show "case createCommand c1 reg of (r1, reg1) \<Rightarrow>
         createCommand c2 reg1 = (Inl (DuplicateCommandName (cmd_name c1)), reg1) \<and>
         commandNames reg1 (cmd_name c1) = Some True"
    using first same createCommand_duplicate [of reg1 c2] by simp
next
  obtain r1 reg1 out1 where first: "addReducer table name red1 reg = (r1, reg1, out1)"
    by (cases "addReducer table name red1 reg")
  show "case addReducer table name red1 reg of (r1, reg1, out1) \<Rightarrow>
      (case addReducer table name red2 reg1 of (r2, reg2, out2) \<Rightarrow>
         r2 = Some DuplicateEventHandler \<and> reg2 = reg1 \<and>
         (r1 = None \<longrightarrow> lookup_reducer reg2 (JStr table) (JStr name) = Some red1))"
    using first addReducer_second(1) [OF first, of red2] addReducer_second(2) [OF first]
    by simp
qed

theorem duplicate_registration_fails_witness:
  "cmd_name ex_addItem = cmd_name ex_addItem \<and>
   fst (createCommand ex_addItem ex_registry0) = Inr (ex_addItem\<lparr>
      cmd_planActions := Some (creatorPlanActions ex_addItem),
      cmd_event := Some (CreatorEvent (creatorEvent ex_addItem)) \<rparr>) \<and>
   fst (createCommand ex_addItem (snd (createCommand ex_addItem ex_registry0)))
     = Inl (DuplicateCommandName ''addItem'') \<and>
   fst (addReducer ''items'' ''addItem'' (CreateReducer ex_creator) ex_registry0) = None \<and>
   fst (addReducer ''items'' ''addItem'' (ModifyReducer ex_updater)
          (fst (snd (addReducer ''items'' ''addItem'' (CreateReducer ex_creator) ex_registry0))))
     = Some DuplicateEventHandler \<and>
   lookup_reducer
     (fst (snd (addReducer ''items'' ''addItem'' (ModifyReducer ex_updater)
          (fst (snd (addReducer ''items'' ''addItem'' (CreateReducer ex_creator) ex_registry0))))))
     (JStr ''items'') (JStr ''addItem'') = Some (CreateReducer ex_creator)"
proof -
  have first_cmd: "fst (createCommand ex_addItem ex_registry0) = Inr (ex_addItem\<lparr>
      cmd_planActions := Some (creatorPlanActions ex_addItem),
      cmd_event := Some (CreatorEvent (creatorEvent ex_addItem)) \<rparr>)"
    by (simp add: createCommand_def ex_registry0_def ex_addItem_def Let_def)
  have first_red: "fst (addReducer ''items'' ''addItem'' (CreateReducer ex_creator) ex_registry0) = None"
    by (simp add: addReducer_def ex_registry0_def Let_def)
  have nm: "cmd_name ex_addItem = ''addItem''"
    by (simp add: ex_addItem_def)
  show ?thesis
    using duplicate_registration_fails [of ex_addItem ex_addItem ex_registry0
        "''items''" "''addItem''" "CreateReducer ex_creator" "ModifyReducer ex_updater"]
      first_cmd first_red nm
    by (auto simp: split_beta)
qed


section \<open>The event factories and the synthesized planning step\<close>

lemma get_prop_rest_without_table:
  "get_prop (rest_without_table v) ''table'' = Inr JUndefined"
proof -
  have "map_of (filter (\<lambda>(k, v). k \<noteq> ''table'') kvs) ''table'' = None" for kvs :: "(string \<times> jsval) list"
    by (induction kvs) auto
  then show ?thesis by (simp add: rest_without_table_def)
qed

lemma keys_rest_without_table:
  "''table'' \<notin> fst ` set (own_props (rest_without_table v))"
  by (auto simp: rest_without_table_def)

lemma creatorEvent_props:
  assumes "creatorEvent c input = Inr ev"
  shows "ev_name ev = JStr (cmd_name c)" "ev_kind ev = cmd_kind c"
    "ev_data ev = rest_without_table input" "ev_rowId ev = JUndefined"
    "\<not> nullish (cmd_table c) \<Longrightarrow> ev_table ev = cmd_table c"
    "nullish (cmd_table c) \<Longrightarrow> get_prop input ''table'' = Inr (ev_table ev)"
  using assms
  by (auto simp: creatorEvent_def nullish_coalesce_def split: sum.splits)

lemma updaterEvent_props:
  assumes "updaterEvent c rid input = Inr ev"
  shows "ev_name ev = JStr (cmd_name c)" "ev_kind ev = cmd_kind c"
    "ev_data ev = rest_without_table input" "ev_rowId ev = rid"
    "\<not> nullish (cmd_table c) \<Longrightarrow> ev_table ev = cmd_table c"
    "nullish (cmd_table c) \<Longrightarrow> get_prop input ''table'' = Inr (ev_table ev)"
  using assms
  by (auto simp: updaterEvent_def nullish_coalesce_def split: sum.splits)

lemma creatorEvent_object:
  "creatorEvent c (JObj kvs) =
     Inr \<lparr> ev_name = JStr (cmd_name c), ev_kind = cmd_kind c,
           ev_data = JObj (filter (\<lambda>(k, v). k \<noteq> ''table'') kvs), ev_rowId = JUndefined,
           ev_table = (if nullish (cmd_table c)
                       then (case map_of kvs ''table'' of Some t \<Rightarrow> t | None \<Rightarrow> JUndefined)
                       else cmd_table c) \<rparr>"
  by (simp add: creatorEvent_def rest_without_table_def nullish_coalesce_def)

lemma updaterEvent_object:
  "updaterEvent c rid (JObj kvs) =
     Inr \<lparr> ev_name = JStr (cmd_name c), ev_kind = cmd_kind c,
           ev_data = JObj (filter (\<lambda>(k, v). k \<noteq> ''table'') kvs), ev_rowId = rid,
           ev_table = (if nullish (cmd_table c)
                       then (case map_of kvs ''table'' of Some t \<Rightarrow> t | None \<Rightarrow> JUndefined)
                       else cmd_table c) \<rparr>"
  by (simp add: updaterEvent_def rest_without_table_def nullish_coalesce_def)

lemma createCommand_create:
  assumes "createCommand c reg = (Inr d, reg')" "cmd_kind c = JStr ''create''"
  shows "cmd_event d = Some (CreatorEvent (creatorEvent c))"
    and "cmd_planActions c = None \<Longrightarrow> cmd_planActions d = Some (creatorPlanActions c)"
  using assms by (auto simp: createCommand_def Let_def split: if_splits)

lemma createCommand_modify:
  assumes "createCommand c reg = (Inr d, reg')" "cmd_kind c = JStr ''modify''"
  shows "cmd_event d = Some (UpdaterEvent (updaterEvent c))"
    and "cmd_planActions c = None \<Longrightarrow> cmd_planActions d = Some (updaterPlanActions c)"
  using assms by (auto simp: createCommand_def Let_def split: if_splits)

text \<open>
  C10. The \<^verbatim>\<open>event\<close> factory of a create-kind or modify-kind command made by
  \<^verbatim>\<open>createCommand\<close> builds an event for every object input, and whenever it builds an
  event the payload has no \<^verbatim>\<open>table\<close> property; the table of the event is the table of
  the command when the command has one (one that is not \<^verbatim>\<open>undefined\<close> or \<^verbatim>\<open>null\<close>),
  whatever the input carries, and the \<^verbatim>\<open>table\<close> property of the input only when the
  command has none.
\<close>

theorem event_factories_relocate_table:
  assumes "createCommand c reg = (Inr d, reg')"
  shows "(cmd_kind c = JStr ''create'' \<longrightarrow>
           (\<exists>factory. cmd_event d = Some (CreatorEvent factory) \<and>
              (\<forall>kvs. \<exists>ev. factory (JObj kvs) = Inr ev) \<and>
              (\<forall>input ev. factory input = Inr ev \<longrightarrow>
                 get_prop (ev_data ev) ''table'' = Inr JUndefined \<and>
                 ''table'' \<notin> fst ` set (own_props (ev_data ev)) \<and>
                 (\<not> nullish (cmd_table c) \<longrightarrow> ev_table ev = cmd_table c) \<and>
                 (nullish (cmd_table c) \<longrightarrow> get_prop input ''table'' = Inr (ev_table ev))))) \<and>
         (cmd_kind c = JStr ''modify'' \<longrightarrow>
           (\<exists>factory. cmd_event d = Some (UpdaterEvent factory) \<and>
              (\<forall>rid kvs. \<exists>ev. factory rid (JObj kvs) = Inr ev) \<and>
              (\<forall>rid input ev. factory rid input = Inr ev \<longrightarrow>
                 get_prop (ev_data ev) ''table'' = Inr JUndefined \<and>
                 ''table'' \<notin> fst ` set (own_props (ev_data ev)) \<and>
                 (\<not> nullish (cmd_table c) \<longrightarrow> ev_table ev = cmd_table c) \<and>
                 (nullish (cmd_table c) \<longrightarrow> get_prop input ''table'' = Inr (ev_table ev)))))"
proof (intro conjI impI)
  assume k: "cmd_kind c = JStr ''create''"
  show "\<exists>factory. cmd_event d = Some (CreatorEvent factory) \<and>
              (\<forall>kvs. \<exists>ev. factory (JObj kvs) = Inr ev) \<and>
              (\<forall>input ev. factory input = Inr ev \<longrightarrow>
                 get_prop (ev_data ev) ''table'' = Inr JUndefined \<and>
                 ''table'' \<notin> fst ` set (own_props (ev_data ev)) \<and>
                 (\<not> nullish (cmd_table c) \<longrightarrow> ev_table ev = cmd_table c) \<and>
                 (nullish (cmd_table c) \<longrightarrow> get_prop input ''table'' = Inr (ev_table ev)))"
  proof (intro exI [of _ "creatorEvent c"] conjI allI impI)
    show "cmd_event d = Some (CreatorEvent (creatorEvent c))"
      using createCommand_create(1) [OF assms k] .
  next
    fix kvs show "\<exists>ev. creatorEvent c (JObj kvs) = Inr ev"
      by (simp add: creatorEvent_object)
  next
    fix input ev assume f: "creatorEvent c input = Inr ev"
    show "get_prop (ev_data ev) ''table'' = Inr JUndefined"
      using creatorEvent_props(3) [OF f] by (simp add: get_prop_rest_without_table)
    show "''table'' \<notin> fst ` set (own_props (ev_data ev))"
      using creatorEvent_props(3) [OF f] keys_rest_without_table [of input] by simp
    show "ev_table ev = cmd_table c" if "\<not> nullish (cmd_table c)"
      using creatorEvent_props(5) [OF f that] .
    show "get_prop input ''table'' = Inr (ev_table ev)" if "nullish (cmd_table c)"
      using creatorEvent_props(6) [OF f that] .
  qed
next
  assume k: "cmd_kind c = JStr ''modify''"
  show "\<exists>factory. cmd_event d = Some (UpdaterEvent factory) \<and>
              (\<forall>rid kvs. \<exists>ev. factory rid (JObj kvs) = Inr ev) \<and>
              (\<forall>rid input ev. factory rid input = Inr ev \<longrightarrow>
                 get_prop (ev_data ev) ''table'' = Inr JUndefined \<and>
                 ''table'' \<notin> fst ` set (own_props (ev_data ev)) \<and>
                 (\<not> nullish (cmd_table c) \<longrightarrow> ev_table ev = cmd_table c) \<and>
                 (nullish (cmd_table c) \<longrightarrow> get_prop input ''table'' = Inr (ev_table ev)))"
  proof (intro exI [of _ "updaterEvent c"] conjI allI impI)
    show "cmd_event d = Some (UpdaterEvent (updaterEvent c))"
      using createCommand_modify(1) [OF assms k] .
  next
    fix rid kvs show "\<exists>ev. updaterEvent c rid (JObj kvs) = Inr ev"
      by (simp add: updaterEvent_object)
  next
    fix rid input ev assume f: "updaterEvent c rid input = Inr ev"
    show "get_prop (ev_data ev) ''table'' = Inr JUndefined"
      using updaterEvent_props(3) [OF f] by (simp add: get_prop_rest_without_table)
    show "''table'' \<notin> fst ` set (own_props (ev_data ev))"
      using updaterEvent_props(3) [OF f] keys_rest_without_table [of input] by simp
    show "ev_table ev = cmd_table c" if "\<not> nullish (cmd_table c)"
      using updaterEvent_props(5) [OF f that] .
    show "get_prop input ''table'' = Inr (ev_table ev)" if "nullish (cmd_table c)"
      using updaterEvent_props(6) [OF f that] .
  qed
qed


theorem event_factories_relocate_table_witness:
  "\<exists>d reg'. createCommand ex_addItem ex_registry0 = (Inr d, reg') \<and>
     cmd_kind ex_addItem = JStr ''create'' \<and> \<not> nullish (cmd_table ex_addItem) \<and>
     (\<exists>factory ev. cmd_event d = Some (CreatorEvent factory) \<and>
        factory (JObj [(''table'', JStr ''other''), (''name'', JStr ''b'')]) = Inr ev \<and>
        get_prop (ev_data ev) ''table'' = Inr JUndefined \<and>
        ev_table ev = JStr ''items'')"
proof -
  obtain d reg' where cc: "createCommand ex_addItem ex_registry0 = (Inr d, reg')"
    by (simp add: createCommand_def ex_registry0_def ex_addItem_def Let_def)
  have k: "cmd_kind ex_addItem = JStr ''create''"
    and t: "\<not> nullish (cmd_table ex_addItem)" "cmd_table ex_addItem = JStr ''items''"
    by (simp_all add: ex_addItem_def nullish_def)
  from event_factories_relocate_table [OF cc] k
  obtain factory where f: "cmd_event d = Some (CreatorEvent factory)"
    "\<forall>kvs. \<exists>ev. factory (JObj kvs) = Inr ev"
    "\<forall>input ev. factory input = Inr ev \<longrightarrow>
       get_prop (ev_data ev) ''table'' = Inr JUndefined \<and>
       ''table'' \<notin> fst ` set (own_props (ev_data ev)) \<and>
       (\<not> nullish (cmd_table ex_addItem) \<longrightarrow> ev_table ev = cmd_table ex_addItem) \<and>
       (nullish (cmd_table ex_addItem) \<longrightarrow> get_prop input ''table'' = Inr (ev_table ev))"
    by blast
  from f(2) obtain ev
    where ev: "factory (JObj [(''table'', JStr ''other''), (''name'', JStr ''b'')]) = Inr ev"
    by blast
  with f(3) t have "get_prop (ev_data ev) ''table'' = Inr JUndefined" "ev_table ev = JStr ''items''"
    by auto
  with cc k t(1) f(1) ev show ?thesis by blast
qed

text \<open>
  C4. For a create-kind command that brings a \<^verbatim>\<open>validate\<close> and no \<^verbatim>\<open>planActions\<close> of its
  own, the \<^verbatim>\<open>planActions\<close> of the command \<^verbatim>\<open>createCommand\<close> returns calls \<^verbatim>\<open>validate\<close>
  with its own three arguments. When \<^verbatim>\<open>validate\<close> throws, the error is the result and
  there is no event. When it returns, the result for an object input is the list of one
  creation event: its name is the name of the command, its payload is the input without
  its \<^verbatim>\<open>table\<close> property, and its table is the table of the command or, when the
  command has none, the \<^verbatim>\<open>table\<close> property of the input.
\<close>

theorem create_command_plans_one_event:
  assumes "createCommand c reg = (Inr d, reg')"
      and "cmd_kind c = JStr ''create''"
      and "cmd_validate c = Some validate"
      and "cmd_planActions c = None"
  shows "\<exists>planActions. cmd_planActions d = Some planActions \<and>
     (\<forall>client kvs lockedRows.
        case validate client (JObj kvs) lockedRows of
          Inl e \<Rightarrow> planActions client (JObj kvs) lockedRows = Inl e
        | Inr u \<Rightarrow>
            planActions client (JObj kvs) lockedRows =
              Inr [Some \<lparr> ev_name = JStr (cmd_name c), ev_kind = JStr ''create'',
                          ev_data = JObj (filter (\<lambda>(k, v). k \<noteq> ''table'') kvs),
                          ev_rowId = JUndefined,
                          ev_table = (if nullish (cmd_table c)
                                      then (case map_of kvs ''table'' of
                                              Some t \<Rightarrow> t | None \<Rightarrow> JUndefined)
                                      else cmd_table c) \<rparr>])"
proof (intro exI [of _ "creatorPlanActions c"] conjI allI)
  show "cmd_planActions d = Some (creatorPlanActions c)"
    using createCommand_create(2) [OF assms(1,2,4)] .
next
  fix client kvs lockedRows
  show "case validate client (JObj kvs) lockedRows of
          Inl e \<Rightarrow> creatorPlanActions c client (JObj kvs) lockedRows = Inl e
        | Inr u \<Rightarrow>
            creatorPlanActions c client (JObj kvs) lockedRows =
              Inr [Some \<lparr> ev_name = JStr (cmd_name c), ev_kind = JStr ''create'',
                          ev_data = JObj (filter (\<lambda>(k, v). k \<noteq> ''table'') kvs),
                          ev_rowId = JUndefined,
                          ev_table = (if nullish (cmd_table c)
                                      then (case map_of kvs ''table'' of
                                              Some t \<Rightarrow> t | None \<Rightarrow> JUndefined)
                                      else cmd_table c) \<rparr>]"
    using assms(2,3)
    by (simp add: creatorPlanActions_def creatorEvent_object split: sum.splits)
qed

theorem create_command_plans_one_event_witness:
  "\<exists>d reg' validate planActions.
     createCommand ex_addItem ex_registry0 = (Inr d, reg') \<and>
     cmd_kind ex_addItem = JStr ''create'' \<and>
     cmd_validate ex_addItem = Some validate \<and>
     cmd_planActions ex_addItem = None \<and>
     cmd_planActions d = Some planActions \<and>
     planActions ex_db (JObj [(''table'', JStr ''other''), (''name'', JStr ''b'')]) (JObj []) =
       Inr [Some \<lparr> ev_name = JStr ''addItem'', ev_kind = JStr ''create'',
                   ev_data = JObj [(''name'', JStr ''b'')], ev_rowId = JUndefined,
                   ev_table = JStr ''items'' \<rparr>]"
proof -
  obtain d reg' where cc: "createCommand ex_addItem ex_registry0 = (Inr d, reg')"
    by (simp add: createCommand_def ex_registry0_def ex_addItem_def Let_def)
  have k: "cmd_kind ex_addItem = JStr ''create''"
    and v: "cmd_validate ex_addItem = Some (\<lambda>client input mutator. Inr JUndefined)"
    and p: "cmd_planActions ex_addItem = None"
    and n: "cmd_name ex_addItem = ''addItem''" "cmd_table ex_addItem = JStr ''items''"
    by (simp_all add: ex_addItem_def)
  from create_command_plans_one_event [OF cc k v p]
  obtain planActions where pa: "cmd_planActions d = Some planActions"
    and run: "\<forall>client kvs lockedRows.
        planActions client (JObj kvs) lockedRows =
              Inr [Some \<lparr> ev_name = JStr (cmd_name ex_addItem), ev_kind = JStr ''create'',
                          ev_data = JObj (filter (\<lambda>(k, v). k \<noteq> ''table'') kvs),
                          ev_rowId = JUndefined,
                          ev_table = (if nullish (cmd_table ex_addItem)
                                      then (case map_of kvs ''table'' of
                                              Some t \<Rightarrow> t | None \<Rightarrow> JUndefined)
                                      else cmd_table ex_addItem) \<rparr>]"
    by auto
  from run have "planActions ex_db (JObj [(''table'', JStr ''other''), (''name'', JStr ''b'')]) (JObj []) =
       Inr [Some \<lparr> ev_name = JStr ''addItem'', ev_kind = JStr ''create'',
                   ev_data = JObj [(''name'', JStr ''b'')], ev_rowId = JUndefined,
                   ev_table = JStr ''items'' \<rparr>]"
    by (simp add: n nullish_def)
  with cc k v p pa show ?thesis by blast
qed


section \<open>The dispatcher: casts, the row cache and the loop\<close>

lemma inherited_not_uuid:
  "k \<in> set object_prototype_keys \<Longrightarrow> \<not> is_uuid k"
  by (auto simp: object_prototype_keys_def is_uuid_def eval_nat_numeral hex_digit_def)

lemma nullish_key_not_inherited:
  "nullish v \<Longrightarrow> to_key v \<notin> set object_prototype_keys"
  by (auto simp: nullish_def object_prototype_keys_def)

lemma coalesce_null_cast [simp]:
  "uuid_param (nullish_coalesce v JNull) = uuid_param v"
  "uuid_of (nullish_coalesce v JNull) = uuid_of v"
  by (auto simp: uuid_param_def uuid_of_def nullish_coalesce_def nullish_def)

lemma inherited_cast_fails:
  assumes "to_key v \<in> set object_prototype_keys"
  shows "\<not> uuid_param v"
  using assms inherited_not_uuid [of "to_key v"] nullish_key_not_inherited [of v]
  by (auto simp: uuid_param_def)

lemma key_cast:
  "is_uuid (to_key v) \<Longrightarrow> uuid_param v"
  by (simp add: uuid_param_def)

lemma selected_lookup_own:
  "sel k = Some v \<Longrightarrow> selected_lookup sel k = Some v"
  by (simp add: selected_lookup_def)

lemma selected_lookup_absent:
  "sel k = None \<Longrightarrow> k \<notin> set object_prototype_keys \<Longrightarrow> selected_lookup sel k = None"
  by (simp add: selected_lookup_def)

lemma selected_lookup_inherited:
  "sel k = None \<Longrightarrow> k \<in> set object_prototype_keys \<Longrightarrow>
   selected_lookup sel k = Some (JBuiltin k)"
  by (simp add: selected_lookup_def)

text \<open>Every locked row was selected under an identifier that passed the cast.\<close>

lemma lockRows_keys:
  "lockRows info db mutator (sel0, md0) = Inr (sel, md) \<Longrightarrow> sel k = Some v \<Longrightarrow>
   sel0 k \<noteq> None \<or> is_uuid k"
proof (induction mutator arbitrary: sel0 md0)
  case Nil
  then show ?case by auto
next
  case (Cons entry rest)
  obtain field table rid where entry: "entry = (field, table, rid)"
    by (cases entry)
  from Cons.prems(1) entry obtain rows
    where sel: "exec_select db table rid = Inr rows"
    by (auto split: option.splits sum.splits)
  then have rid: "is_uuid rid"
    by (auto simp: exec_select_def split: if_splits)
  show ?case
  proof (cases rows)
    case Nil
    with Cons.prems entry sel
    have "lockRows info db rest (sel0, md0) = Inr (sel, md)"
      by (auto split: option.splits)
    from Cons.IH [OF this Cons.prems(2)] show ?thesis .
  next
    case (Cons row others)
    with Cons.prems entry sel obtain names
      where "lockRows info db rest
          (sel0(rid \<mapsto> outputData rid names row),
           obj_set md0 field (outputData rid names row)) = Inr (sel, md)"
      by (auto split: option.splits)
    from Cons.IH [OF this Cons.prems(2)] rid show ?thesis
      by (auto split: if_splits)
  qed
qed

lemma lockAndPlan_keys:
  assumes "lockAndPlan info command input db = Inr (sel, events)" and "sel k = Some v"
  shows "is_uuid k"
proof -
  from assms(1) obtain mutator md
    where "lockRows info db mutator (Map.empty, []) = Inr (sel, md)"
    by (auto simp: lockAndPlan_def split: sum.splits option.splits prod.splits)
  from lockRows_keys [OF this assms(2)] show ?thesis by simp
qed

lemma applyEvents_append:
  "applyEvents reg info actorId now (xs @ ys) st =
     (case applyEvents reg info actorId now xs st of
        (Inl e, w) \<Rightarrow> (Inl e, w)
      | (Inr sel, w) \<Rightarrow> applyEvents reg info actorId now ys (sel, w))"
proof (induction xs arbitrary: st)
  case Nil
  show ?case by (cases st) simp
next
  case (Cons x xs)
  show ?case
    by (cases "applyEvent reg info actorId now x st")
       (auto simp: Cons.IH split: sum.splits prod.splits)
qed

lemma applyEvent_unhandled:
  assumes "lookup_reducer reg (ev_table ev) (ev_name ev) = None"
  shows "applyEvent reg info actorId now (Some ev) (sel, w) =
           (Inr sel, if truthy (ev_name ev) then w else console_log LogInvalidEvent w)"
  using assms by (simp add: applyEvent_def)

text \<open>The modify branch when nothing fails, and when only the cast of the actor fails.\<close>

lemma applyEvent_modify_ok:
  assumes "lookup_reducer reg (ev_table ev) (ev_name ev) = Some (ModifyReducer updater)"
      and "truthy (ev_name ev)" and "ev_kind ev = JStr ''modify''"
      and "sel (to_key (ev_rowId ev)) = Some prev" and "truthy prev"
      and "updater prev (ev_data ev) = Inr partial"
      and "rowData_of (namesForTable info (to_key (ev_table ev))) partial = Inr rowData"
      and "uuid_param (ev_rowId ev)" and "is_uuid actorId"
  shows "applyEvent reg info actorId now (Some ev) (sel, w) =
     (Inr (sel(to_key (ev_rowId ev) \<mapsto> spread2 prev partial)),
      log_append (log_entry_of ev (ev_rowId ev) actorId now)
        (row_update (to_key (ev_table ev)) rowData (uuid_of (ev_rowId ev)) w))"
  using assms
  by (simp add: applyEvent_def apply_modify_def selected_lookup_own exec_update_def
      exec_addEvent_def log_entry_of_def)

lemma applyEvent_modify_bad_actor:
  assumes "lookup_reducer reg (ev_table ev) (ev_name ev) = Some (ModifyReducer updater)"
      and "truthy (ev_name ev)" and "ev_kind ev = JStr ''modify''"
      and "sel (to_key (ev_rowId ev)) = Some prev" and "truthy prev"
      and "updater prev (ev_data ev) = Inr partial"
      and "rowData_of (namesForTable info (to_key (ev_table ev))) partial = Inr rowData"
      and "\<not> is_uuid actorId"
  shows "\<exists>w'. applyEvent reg info actorId now (Some ev) (sel, w) = (Inl StoreError, w')"
  using assms
  by (simp add: applyEvent_def apply_modify_def selected_lookup_own exec_update_def
      exec_addEvent_def log_entry_of_def)

text \<open>What \<^verbatim>\<open>runCommand\<close> leaves behind when its \<^verbatim>\<open>try\<close> block threw.\<close>

lemma runCommand_after_error:
  assumes "runCommand_body reg info command input actorId now w = (Inl e, w')"
  shows "committed (snd (runCommand reg info command input actorId now w)) = committed w"
    and "console (snd (runCommand reg info command input actorId now w)) = console w' @ [LogFailed e]"
    and "connected w \<Longrightarrow> runCommand reg info command input actorId now w =
           (Inr JUndefined, discard_work (console_log (LogFailed e) w'))"
    and "\<not> connected w \<Longrightarrow> runCommand reg info command input actorId now w =
           (Inl StoreError, console_log (LogFailed e) w')"
proof -
  have c: "committed w' = committed w" "connected w' = connected w"
    using assms runCommand_body_committed_on_error runCommand_body_connected by blast+
  have run: "runCommand reg info command input actorId now w =
      catch_rollback JUndefined e w'"
    by (simp add: runCommand_def try_catch_def assms)
  show "committed (snd (runCommand reg info command input actorId now w)) = committed w"
    "console (snd (runCommand reg info command input actorId now w)) = console w' @ [LogFailed e]"
    using c by (cases "connected w"; simp add: run catch_rollback_def)+
  show "connected w \<Longrightarrow> runCommand reg info command input actorId now w =
           (Inr JUndefined, discard_work (console_log (LogFailed e) w'))"
    using c by (simp add: run catch_rollback_def)
  show "\<not> connected w \<Longrightarrow> runCommand reg info command input actorId now w =
           (Inl StoreError, console_log (LogFailed e) w')"
    using c by (simp add: run catch_rollback_def)
qed

lemma runCommand_body_single_modify:
  assumes "lockAndPlan info command input (committed w) = Inr (sel, [Some ev])"
      and "lookup_reducer reg (ev_table ev) (ev_name ev) = Some (ModifyReducer updater)"
      and "truthy (ev_name ev)" and "ev_kind ev = JStr ''modify''"
      and "sel (to_key (ev_rowId ev)) = Some prev" and "truthy prev"
      and "updater prev (ev_data ev) = Inr partial"
      and "rowData_of (namesForTable info (to_key (ev_table ev))) partial = Inr rowData"
      and "connected w" and "is_uuid actorId"
  shows "runCommand_body reg info command input actorId now w =
      (Inr JUndefined,
       keep_work (log_append (log_entry_of ev (ev_rowId ev) actorId now)
         (row_update (to_key (ev_table ev)) rowData (uuid_of (ev_rowId ev)) (discard_work w))))"
proof -
  have "is_uuid (to_key (ev_rowId ev))"
    using lockAndPlan_keys [OF assms(1) assms(5)] .
  then have cast: "uuid_param (ev_rowId ev)" by (rule key_cast)
  show ?thesis
    using assms(1,9)
      applyEvent_modify_ok [where sel = sel and updater = updater and prev = prev,
        OF assms(2-8) cast assms(10)]
    by (simp add: runCommand_body_def)
qed

lemma runCommand_single_modify:
  assumes "lockAndPlan info command input (committed w) = Inr (sel, [Some ev])"
      and "lookup_reducer reg (ev_table ev) (ev_name ev) = Some (ModifyReducer updater)"
      and "truthy (ev_name ev)" and "ev_kind ev = JStr ''modify''"
      and "sel (to_key (ev_rowId ev)) = Some prev" and "truthy prev"
      and "updater prev (ev_data ev) = Inr partial"
      and "rowData_of (namesForTable info (to_key (ev_table ev))) partial = Inr rowData"
      and "connected w" and "is_uuid actorId"
  shows "runCommand reg info command input actorId now w =
      (Inr JUndefined,
       keep_work (log_append (log_entry_of ev (ev_rowId ev) actorId now)
         (row_update (to_key (ev_table ev)) rowData (uuid_of (ev_rowId ev)) (discard_work w))))"
  using runCommand_body_single_modify [where sel = sel and updater = updater and prev = prev,
      OF assms, of now]
  by (simp add: runCommand_def try_catch_def)

lemma runCommand_single_modify_bad_actor:
  assumes "lockAndPlan info command input (committed w) = Inr (sel, [Some ev])"
      and "lookup_reducer reg (ev_table ev) (ev_name ev) = Some (ModifyReducer updater)"
      and "truthy (ev_name ev)" and "ev_kind ev = JStr ''modify''"
      and "sel (to_key (ev_rowId ev)) = Some prev" and "truthy prev"
      and "updater prev (ev_data ev) = Inr partial"
      and "rowData_of (namesForTable info (to_key (ev_table ev))) partial = Inr rowData"
      and "connected w" and "\<not> is_uuid actorId"
  shows "\<exists>w'. runCommand_body reg info command input actorId now w = (Inl StoreError, w')"
proof -
  from applyEvent_modify_bad_actor [where sel = sel and updater = updater and prev = prev,
      OF assms(2-8) assms(10)]
  obtain w' where "applyEvent reg info actorId now (Some ev) (sel, discard_work w)
      = (Inl StoreError, w')"
    by blast
  with assms(1,9) show ?thesis
    by (simp add: runCommand_body_def)
qed

text \<open>The update statement with the same parameters, once more.\<close>

lemma coalesce_row_idem:
  "coalesce_row params (coalesce_row params row) = coalesce_row params row"
proof (induction params arbitrary: row)
  case Nil
  then show ?case by (simp add: coalesce_row_def)
next
  case (Cons p ps)
  show ?case
  proof (cases row)
    case Nil
    then show ?thesis by (simp add: coalesce_row_def)
  next
    case (Cons x xs)
    with Cons.IH [of xs] show ?thesis by (simp add: coalesce_row_def)
  qed
qed

lemma row_update_again:
  assumes "db_rows (current w') = db_rows (current (row_update table params rid w))"
  shows "db_rows (current (row_update table params rid w')) = db_rows (current w')"
proof (cases rid)
  case None
  then show ?thesis by (simp add: row_update_def)
next
  case (Some i)
  show ?thesis
  proof (cases "db_rows (current w) (table, i)")
    case None
    with assms Some show ?thesis by (simp add: row_update_def)
  next
    case (Some row)
    with assms \<open>rid = Some i\<close>
    have "db_rows (current w') = (db_rows (current w))((table, i) \<mapsto> coalesce_row params row)"
      by (simp add: row_update_def)
    then show ?thesis
      using \<open>rid = Some i\<close> by (simp add: row_update_def coalesce_row_idem)
  qed
qed

section \<open>Facts about the small instance\<close>

lemma ex_ids_uuid [simp]:
  "is_uuid ex_r1" "is_uuid ex_r2" "is_uuid ex_r9" "is_uuid ex_actor"
  by (simp_all add: ex_r1_def ex_r2_def ex_r9_def ex_actor_def is_uuid_def eval_nat_numeral
      hex_digit_def)

lemma ex_ids_canon [simp]:
  "uuid_canon ex_r1 = ex_r1" "uuid_canon ex_r2 = ex_r2" "uuid_canon ex_r9 = ex_r9"
  by (simp_all add: ex_r1_def ex_r2_def ex_r9_def uuid_canon_def hex_digit_def lower_hex_def
      Let_def)

lemma ex_ids_distinct [simp]:
  "ex_r1 \<noteq> ex_r2" "ex_r2 \<noteq> ex_r1" "ex_r1 \<noteq> ex_r9" "ex_r9 \<noteq> ex_r1"
  "ex_r2 \<noteq> ex_r9" "ex_r9 \<noteq> ex_r2"
  by (simp_all add: ex_r1_def ex_r2_def ex_r9_def)

lemma ex_ids_not_inherited [simp]:
  "ex_r1 \<notin> set object_prototype_keys" "ex_r2 \<notin> set object_prototype_keys"
  "ex_r9 \<notin> set object_prototype_keys"
  using inherited_not_uuid [of ex_r1] inherited_not_uuid [of ex_r2] inherited_not_uuid [of ex_r9]
  by auto

lemma ex_ids_cast [simp]:
  "uuid_param (JStr ex_r1)" "uuid_param (JStr ex_r2)" "uuid_param (JStr ex_r9)"
  "uuid_of (JStr ex_r1) = Some ex_r1" "uuid_of (JStr ex_r2) = Some ex_r2"
  "uuid_of (JStr ex_r9) = Some ex_r9"
  by (simp_all add: uuid_param_def uuid_of_def nullish_def)

lemma ex_info_items:
  "namesForTable ex_info ''items'' = Some [''name'', ''value'']"
  "selectUpdateForTable ex_info ''items'' = Some (select_stmt ''items'' [''name'', ''value''])"
  "createForTable ex_info ''items'' = Some (insert_stmt ''items'' [''name'', ''value''])"
  "updateForTable ex_info ''items'' = Some (update_stmt ''items'' [''name'', ''value''])"
proof -
  have "descriptor (foldl compile_table empty_info ex_schema) ''items'' =
      (Some (map fst [(''name'', ''text''), (''value'', ''int4'')]),
       Some (select_stmt ''items'' (map fst [(''name'', ''text''), (''value'', ''int4'')])),
       Some (insert_stmt ''items'' (map fst [(''name'', ''text''), (''value'', ''int4'')])),
       Some (update_stmt ''items'' (map fst [(''name'', ''text''), (''value'', ''int4'')])))"
    by (rule descriptor_foldl_same) (simp_all add: ex_schema_def)
  then show "namesForTable ex_info ''items'' = Some [''name'', ''value'']"
    "selectUpdateForTable ex_info ''items'' = Some (select_stmt ''items'' [''name'', ''value''])"
    "createForTable ex_info ''items'' = Some (insert_stmt ''items'' [''name'', ''value''])"
    "updateForTable ex_info ''items'' = Some (update_stmt ''items'' [''name'', ''value''])"
    by (simp_all add: descriptor_def ex_info_def processSchema_def)
qed

lemma ex_registry_lookup:
  "lookup_reducer ex_registry (JStr ''items'') (JStr ''addItem'') = Some (CreateReducer ex_creator)"
  "lookup_reducer ex_registry (JStr ''items'') (JStr ''bump'') = Some (ModifyReducer ex_updater)"
  "lookup_reducer ex_registry (JStr ''items'') (JStr ''rename'') = None"
  "lookup_reducer ex_registry (JStr ''items'') (JStr ''setName'') = Some (ModifyReducer ex_setter)"
  by (simp_all add: ex_registry_def ex_registry0_def reducer_creator_def reducer_updater_def
      addReducer_def lookup_reducer_def Let_def)

lemma ex_addItem_cmd_fields:
  "cmd_mutator ex_addItem_cmd = (\<lambda>input. Inr [])"
  "cmd_planActions ex_addItem_cmd = Some (creatorPlanActions ex_addItem)"
  by (simp_all add: ex_addItem_cmd_def createCommand_def ex_registry0_def ex_addItem_def Let_def)

lemma ex_addItem_plan:
  "creatorPlanActions ex_addItem client (JObj kvs) lockedRows =
     Inr [Some \<lparr> ev_name = JStr ''addItem'', ev_kind = JStr ''create'',
                 ev_data = JObj (filter (\<lambda>(k, v). k \<noteq> ''table'') kvs),
                 ev_rowId = JUndefined, ev_table = JStr ''items'' \<rparr>]"
  by (simp add: creatorPlanActions_def creatorEvent_object ex_addItem_def nullish_def)

lemma ex_bump_cmd_fields:
  "cmd_mutator ex_bump_cmd (JObj [(''id'', JStr rid)]) = Inr [(''target'', ''items'', rid)]"
  "cmd_planActions ex_bump_cmd = Some (updaterPlanActions ex_bump)"
  by (simp_all add: ex_bump_cmd_def createCommand_def ex_registry0_def ex_bump_def Let_def)

lemma ex_bump_plan:
  "updaterPlanActions ex_bump client (JObj [(''id'', JStr rid)]) lockedRows =
     Inr [Some \<lparr> ev_name = JStr ''bump'', ev_kind = JStr ''modify'',
                 ev_data = JObj [(''id'', JStr rid)],
                 ev_rowId = JStr rid, ev_table = JStr ''items'' \<rparr>]"
  by (simp add: updaterPlanActions_def updaterEvent_object ex_bump_def nullish_def)

lemma ex_world_fields [simp]:
  "committed ex_world = ex_db" "current ex_world = ex_db"
  "id_supply ex_world = [Some ex_r2]" "console ex_world = []" "connected ex_world"
  by (simp_all add: ex_world_def)

lemma ex_db_rows [simp]:
  "db_rows ex_db (''items'', ex_r1) = Some [JStr ''a'', JNum 5]"
  "db_rows ex_db (''items'', ex_r2) = None"
  "db_rows ex_db (''items'', ex_r9) = None"
  "db_events ex_db = []"
  by (simp_all add: ex_db_def)

text \<open>Locking the row \<open>ex_r1\<close>, whatever it holds.\<close>

lemma ex_lock_r1_row:
  "db_rows db (''items'', ex_r1) = Some [JStr nm, JNum n] \<Longrightarrow>
   lockRows ex_info db [(''target'', ''items'', ex_r1)] (Map.empty, []) =
     Inr ([ex_r1 \<mapsto> JObj [(''id'', JStr ex_r1), (''name'', JStr nm), (''value'', JNum n)]],
          [(''target'', JObj [(''id'', JStr ex_r1), (''name'', JStr nm), (''value'', JNum n)])])"
  by (simp add: ex_info_items exec_select_def outputData_def enumerate_eq_zip nth_or_undefined_def)

lemma ex_lock_r1:
  "lockRows ex_info ex_db [(''target'', ''items'', ex_r1)] (Map.empty, []) =
     Inr ([ex_r1 \<mapsto> ex_locked_r1], [(''target'', ex_locked_r1)])"
  unfolding ex_locked_r1_def by (rule ex_lock_r1_row) simp

text \<open>The planning of each command of the instance.\<close>

lemma ex_bump_missing_lockAndPlan:
  "lockAndPlan ex_info ex_bump_cmd (JObj [(''id'', JStr ex_r9)]) ex_db =
     Inr (Map.empty, [Some \<lparr> ev_name = JStr ''bump'', ev_kind = JStr ''modify'',
                 ev_data = JObj [(''id'', JStr ex_r9)],
                 ev_rowId = JStr ex_r9, ev_table = JStr ''items'' \<rparr>])"
  by (simp add: lockAndPlan_def ex_bump_cmd_fields ex_info_items exec_select_def ex_bump_plan)

lemma ex_bump_r1_lockAndPlan:
  "db_rows db (''items'', ex_r1) = Some [JStr nm, JNum n] \<Longrightarrow>
   lockAndPlan ex_info ex_bump_cmd (JObj [(''id'', JStr ex_r1)]) db =
     Inr ([ex_r1 \<mapsto> JObj [(''id'', JStr ex_r1), (''name'', JStr nm), (''value'', JNum n)]],
          [Some ex_bump_r1_event])"
  by (simp add: lockAndPlan_def ex_bump_cmd_fields ex_lock_r1_row ex_bump_plan ex_bump_r1_event_def
      del: lockRows.simps)

lemma ex_setName_lockAndPlan:
  "db_rows db (''items'', ex_r1) = Some [JStr nm, JNum n] \<Longrightarrow>
   lockAndPlan ex_info ex_setName_cmd input db =
     Inr ([ex_r1 \<mapsto> JObj [(''id'', JStr ex_r1), (''name'', JStr nm), (''value'', JNum n)]],
          [Some ex_setName_event])"
  by (simp add: lockAndPlan_def ex_setName_cmd_def ex_lock_r1_row del: lockRows.simps)

lemma ex_rename_lockAndPlan:
  "lockAndPlan ex_info ex_rename_cmd JUndefined ex_db =
     Inr ([ex_r1 \<mapsto> ex_locked_r1], [Some ex_rename_event])"
  by (simp add: lockAndPlan_def ex_rename_cmd_def ex_lock_r1 del: lockRows.simps)

lemma ex_stray_lockAndPlan:
  "lockAndPlan ex_info ex_stray_cmd JUndefined ex_db =
     Inr ([ex_r1 \<mapsto> ex_locked_r1], [Some (ex_bump_event ''first''), Some ex_stray_event])"
  by (simp add: lockAndPlan_def ex_stray_cmd_def ex_lock_r1 del: lockRows.simps)

lemma ex_inherited_lockAndPlan:
  "lockAndPlan ex_info ex_inherited_cmd JUndefined ex_db =
     Inr ([ex_r1 \<mapsto> ex_locked_r1], [Some ex_inherited_event])"
  by (simp add: lockAndPlan_def ex_inherited_cmd_def ex_lock_r1 del: lockRows.simps)

lemma ex_batch_lockAndPlan:
  "lockAndPlan ex_info ex_batch_cmd JUndefined ex_db =
     Inr ([ex_r1 \<mapsto> ex_locked_r1],
          [Some (ex_bump_event ''first''), None, Some ex_rename_event,
           Some ex_add_event, Some (ex_bump_event ''second'')])"
  by (simp add: lockAndPlan_def ex_batch_cmd_def ex_lock_r1 del: lockRows.simps)

lemma ex_addItem_lockAndPlan:
  "lockAndPlan ex_info ex_addItem_cmd (JObj [(''name'', JStr ''b''), (''value'', JNum 1)]) db =
     Inr (Map.empty, [Some ex_add_event])"
  by (simp add: lockAndPlan_def ex_addItem_cmd_fields ex_addItem_plan ex_add_event_def)

text \<open>Single turns of the loop on the instance.\<close>

lemma ex_bump_any:
  "applyEvent ex_registry ex_info ex_actor now (Some (ex_bump_event tag))
       ([ex_r1 \<mapsto> JObj [(''id'', JStr ex_r1), (''name'', JStr ''a''), (''value'', JNum n)]], w) =
     (Inr [ex_r1 \<mapsto> JObj [(''id'', JStr ex_r1), (''name'', JStr ''a''), (''value'', JNum (n + 1))]],
      log_append (log_entry_of (ex_bump_event tag) (JStr ex_r1) ex_actor now)
        (row_update ''items'' [JNull, JNum (n + 1)] (Some ex_r1) w))"
proof -
  let ?prev = "JObj [(''id'', JStr ex_r1), (''name'', JStr ''a''), (''value'', JNum n)]"
  have "applyEvent ex_registry ex_info ex_actor now (Some (ex_bump_event tag))
       ([ex_r1 \<mapsto> ?prev], w) =
     (Inr ([ex_r1 \<mapsto> ?prev](to_key (ev_rowId (ex_bump_event tag)) \<mapsto>
         spread2 ?prev (JObj [(''value'', JNum (n + 1))]))),
      log_append (log_entry_of (ex_bump_event tag) (ev_rowId (ex_bump_event tag)) ex_actor now)
        (row_update (to_key (ev_table (ex_bump_event tag))) [JNull, JNum (n + 1)]
           (uuid_of (ev_rowId (ex_bump_event tag))) w))"
    by (rule applyEvent_modify_ok [where updater = ex_updater])
       (simp_all add: ex_bump_event_def ex_registry_lookup ex_updater_def ex_info_items
          rowData_of_def nullish_coalesce_def nullish_def)
  then show ?thesis
    by (simp add: ex_bump_event_def spread2_def obj_assign_def)
qed

lemma ex_rename_skip:
  "applyEvent ex_registry ex_info ex_actor now (Some ex_rename_event) (sel, w) = (Inr sel, w)"
  by (simp add: applyEvent_def ex_rename_event_def ex_registry_lookup)

lemma ex_rename_event_unhandled:
  "lookup_reducer ex_registry (ev_table ex_rename_event) (ev_name ex_rename_event) = None"
  by (simp add: ex_rename_event_def ex_registry_lookup)

lemma ex_add_apply:
  "id_supply w = [Some ex_r2] \<Longrightarrow> db_rows (current w) (''items'', ex_r2) = None \<Longrightarrow>
   applyEvent ex_registry ex_info ex_actor now (Some ex_add_event) (sel, w) =
     (Inr sel,
      log_append (log_entry_of ex_add_event (JStr ex_r2) ex_actor now)
        (w\<lparr> current := (current w)\<lparr> db_rows :=
              (db_rows (current w))((''items'', ex_r2) \<mapsto> [JStr ''b'', JNum 1]) \<rparr>,
            id_supply := [] \<rparr>))"
  by (simp add: applyEvent_def ex_add_event_def ex_registry_lookup apply_create_def ex_creator_def
      ex_info_items rowData_of_def nullish_coalesce_def nullish_def exec_insert_def
      first_cell_def nth_or_undefined_def domIff exec_addEvent_def log_entry_of_def)

lemma ex_stray_not_locked:
  "modify_not_locked ex_registry ex_stray_event
     [ex_r1 \<mapsto> JObj [(''id'', JStr ex_r1), (''name'', JStr ''a''), (''value'', JNum 6)]]"
  by (simp add: modify_not_locked_def ex_stray_event_def ex_registry_lookup)

lemma ex_inherited_not_locked:
  "modify_not_locked ex_registry ex_inherited_event [ex_r1 \<mapsto> ex_locked_r1]"
  by (simp add: modify_not_locked_def ex_inherited_event_def ex_registry_lookup ex_r1_def)

lemma ex_add_without_id:
  "insert_without_id ex_registry ex_info ex_add_event (discard_work (ex_world\<lparr> id_supply := [None] \<rparr>))"
  by (simp add: insert_without_id_def ex_add_event_def ex_registry_lookup ex_creator_def
      ex_info_items rowData_of_def nullish_coalesce_def nullish_def exec_insert_def
      first_cell_def nth_or_undefined_def)

text \<open>The row \<open>ex_r1\<close> after an update of the working state has been committed.\<close>

lemma ex_update_r1:
  "db_rows (committed w) (''items'', ex_r1) = Some [JStr nm, JNum n] \<Longrightarrow>
   db_rows (committed (keep_work (log_append entry
      (row_update ''items'' [p, JNum m] (Some ex_r1) (discard_work w))))) (''items'', ex_r1)
     = Some [if nullish p then JStr nm else p, JNum m]"
  by (simp add: row_update_def coalesce_row_def nullish_def)

section \<open>The dispatcher: failures\<close>

lemma ex_bump_missing_body:
  "runCommand_body ex_registry ex_info ex_bump_cmd (JObj [(''id'', JStr ex_r9)]) ex_actor 7 ex_world
     = (Inl NotRequestedInMutator, discard_work ex_world)"
  by (simp add: runCommand_body_def ex_bump_missing_lockAndPlan applyEvent_def
      ex_registry_lookup apply_modify_def selected_lookup_def)

lemma ex_setName_body:
  "runCommand_body ex_registry ex_info ex_setName_cmd JUndefined ex_actor 7 ex_world
     = (Inr JUndefined,
        keep_work (log_append (log_entry_of ex_setName_event (JStr ex_r1) ex_actor 7)
          (row_update ''items'' [JStr ''z'', JNull] (Some ex_r1) (discard_work ex_world))))"
proof -
  let ?prev = "JObj [(''id'', JStr ex_r1), (''name'', JStr ''a''), (''value'', JNum 5)]"
  have "runCommand_body ex_registry ex_info ex_setName_cmd JUndefined ex_actor 7 ex_world =
      (Inr JUndefined,
       keep_work (log_append (log_entry_of ex_setName_event (ev_rowId ex_setName_event) ex_actor 7)
        (row_update (to_key (ev_table ex_setName_event)) [JStr ''z'', JNull]
           (uuid_of (ev_rowId ex_setName_event)) (discard_work ex_world))))"
  proof (rule runCommand_body_single_modify [where sel = "[ex_r1 \<mapsto> ?prev]"
        and updater = ex_setter and prev = ?prev and partial = "JObj [(''name'', JStr ''z'')]"])
    show "lockAndPlan ex_info ex_setName_cmd JUndefined (committed ex_world) =
        Inr ([ex_r1 \<mapsto> ?prev], [Some ex_setName_event])"
      by (rule ex_setName_lockAndPlan) simp
  qed (simp_all add: ex_setName_event_def ex_registry_lookup ex_setter_def ex_info_items
      rowData_of_def nullish_coalesce_def nullish_def)
  then show ?thesis
    by (simp add: ex_setName_event_def)
qed

text \<open>
  C5, as stated, fails: \<^verbatim>\<open>runCommand\<close> can raise. On a closed connection \<^verbatim>\<open>begin\<close>
  throws, the \<^verbatim>\<open>catch\<close> block prints the error and awaits the rollback statement,
  which throws as well, and nothing catches that: the promise rejects.
\<close>

theorem runCommand_rejects_on_closed_connection:
  "fst (runCommand ex_registry ex_info ex_bump_cmd (JObj [(''id'', JStr ex_r1)]) ex_actor 7
          (ex_world\<lparr> connected := False \<rparr>)) = Inl StoreError \<and>
   console (snd (runCommand ex_registry ex_info ex_bump_cmd (JObj [(''id'', JStr ex_r1)]) ex_actor 7
          (ex_world\<lparr> connected := False \<rparr>))) = [LogFailed StoreError]"
  by (simp add: runCommand_def try_catch_def catch_rollback_def runCommand_body_def)

text \<open>
  C5, as amended. Every error thrown in the \<^verbatim>\<open>try\<close> block of \<^verbatim>\<open>runCommand\<close>, from
  \<^verbatim>\<open>begin\<close> to \<^verbatim>\<open>commit\<close>, is caught and written to the console, the committed
  state stays the one before the call, and the rollback statement is issued. On an open
  connection the rollback succeeds and the promise resolves with \<^verbatim>\<open>undefined\<close>, as it
  does after a commit, so the caller sees the same result in both cases. On a closed
  connection the rollback statement fails and its error rejects the promise; the
  promise rejects in no other case, and never with another error than that of the
  rollback statement. When the block ends without an error its working state has been
  committed.
\<close>

theorem runCommand_failures_are_rolled_back:
  "fst (runCommand reg info command input actorId now w)
     = (if connected w then Inr JUndefined else Inl StoreError) \<and>
   (\<forall>e w'. runCommand_body reg info command input actorId now w = (Inl e, w') \<longrightarrow>
      committed (snd (runCommand reg info command input actorId now w)) = committed w \<and>
      console (snd (runCommand reg info command input actorId now w)) = console w' @ [LogFailed e] \<and>
      (connected w \<longrightarrow>
         current (snd (runCommand reg info command input actorId now w)) = committed w)) \<and>
   (\<forall>v w'. runCommand_body reg info command input actorId now w = (Inr v, w') \<longrightarrow>
      runCommand reg info command input actorId now w = (Inr JUndefined, w') \<and>
      connected w \<and> committed w' = current w') \<and>
   (\<forall>x. fst (runCommand reg info command input actorId now w) = Inl x \<longrightarrow>
      (\<exists>e w'. runCommand_body reg info command input actorId now w = (Inl e, w') \<and>
         fst (tx_rollback (console_log (LogFailed e) w')) = Inl x))"
proof (intro conjI allI impI)
  show "fst (runCommand reg info command input actorId now w)
     = (if connected w then Inr JUndefined else Inl StoreError)"
  proof (cases "runCommand_body reg info command input actorId now w")
    case (Pair r w')
    show ?thesis
    proof (cases r)
      case (Inl e)
      with Pair runCommand_after_error(3,4) [of reg info command input actorId now w e w']
      show ?thesis by (cases "connected w") simp_all
    next
      case (Inr v)
      with Pair runCommand_body_committed_on_success [of reg info command input actorId now w v w']
      show ?thesis by (simp add: runCommand_def try_catch_def)
    qed
  qed
next
  fix e w' assume b: "runCommand_body reg info command input actorId now w = (Inl e, w')"
  show "committed (snd (runCommand reg info command input actorId now w)) = committed w"
    using b by (rule runCommand_after_error(1))
  show "console (snd (runCommand reg info command input actorId now w)) = console w' @ [LogFailed e]"
    using b by (rule runCommand_after_error(2))
  show "current (snd (runCommand reg info command input actorId now w)) = committed w"
    if "connected w"
    using runCommand_after_error(3) [OF b that] runCommand_body_committed_on_error [OF b]
    by simp
next
  fix v w' assume b: "runCommand_body reg info command input actorId now w = (Inr v, w')"
  from runCommand_body_committed_on_success [OF b]
  show "runCommand reg info command input actorId now w = (Inr JUndefined, w')"
    "connected w" "committed w' = current w'"
    using b by (simp_all add: runCommand_def try_catch_def)
next
  fix x assume rejected: "fst (runCommand reg info command input actorId now w) = Inl x"
  show "\<exists>e w'. runCommand_body reg info command input actorId now w = (Inl e, w') \<and>
         fst (tx_rollback (console_log (LogFailed e) w')) = Inl x"
  proof (cases "runCommand_body reg info command input actorId now w")
    case (Pair r w')
    show ?thesis
    proof (cases r)
      case (Inl e)
      with Pair rejected show ?thesis
        by (auto simp: runCommand_def try_catch_def catch_rollback_def split: prod.splits sum.splits)
    next
      case (Inr v)
      with Pair rejected show ?thesis
        by (simp add: runCommand_def try_catch_def)
    qed
  qed
qed

theorem runCommand_failures_are_rolled_back_witness:
  "runCommand_body ex_registry ex_info ex_bump_cmd (JObj [(''id'', JStr ex_r9)]) ex_actor 7 ex_world
     = (Inl NotRequestedInMutator, discard_work ex_world) \<and>
   connected ex_world \<and>
   fst (runCommand ex_registry ex_info ex_bump_cmd (JObj [(''id'', JStr ex_r9)]) ex_actor 7 ex_world)
     = Inr JUndefined \<and>
   committed (snd (runCommand ex_registry ex_info ex_bump_cmd (JObj [(''id'', JStr ex_r9)])
      ex_actor 7 ex_world)) = ex_db \<and>
   current (snd (runCommand ex_registry ex_info ex_bump_cmd (JObj [(''id'', JStr ex_r9)])
      ex_actor 7 ex_world)) = ex_db \<and>
   console (snd (runCommand ex_registry ex_info ex_bump_cmd (JObj [(''id'', JStr ex_r9)])
      ex_actor 7 ex_world)) = [LogFailed NotRequestedInMutator] \<and>
   runCommand_body ex_registry ex_info ex_setName_cmd JUndefined ex_actor 7 ex_world
     = (Inr JUndefined,
        keep_work (log_append (log_entry_of ex_setName_event (JStr ex_r1) ex_actor 7)
          (row_update ''items'' [JStr ''z'', JNull] (Some ex_r1) (discard_work ex_world)))) \<and>
   runCommand ex_registry ex_info ex_setName_cmd JUndefined ex_actor 7 ex_world
     = (Inr JUndefined,
        keep_work (log_append (log_entry_of ex_setName_event (JStr ex_r1) ex_actor 7)
          (row_update ''items'' [JStr ''z'', JNull] (Some ex_r1) (discard_work ex_world)))) \<and>
   db_rows (committed (snd (runCommand ex_registry ex_info ex_setName_cmd JUndefined ex_actor 7
      ex_world))) (''items'', ex_r1) = Some [JStr ''z'', JNum 5] \<and>
   fst (runCommand ex_registry ex_info ex_setName_cmd JUndefined ex_actor 7
      (ex_world\<lparr> connected := False \<rparr>)) = Inl StoreError \<and>
   (\<exists>e w'. runCommand_body ex_registry ex_info ex_setName_cmd JUndefined ex_actor 7
        (ex_world\<lparr> connected := False \<rparr>) = (Inl e, w') \<and>
      fst (tx_rollback (console_log (LogFailed e) w')) = Inl StoreError)"
proof -
  let ?bump = "runCommand ex_registry ex_info ex_bump_cmd (JObj [(''id'', JStr ex_r9)]) ex_actor 7
      ex_world"
  let ?setName = "runCommand ex_registry ex_info ex_setName_cmd JUndefined ex_actor 7 ex_world"
  let ?done = "keep_work (log_append (log_entry_of ex_setName_event (JStr ex_r1) ex_actor 7)
      (row_update ''items'' [JStr ''z'', JNull] (Some ex_r1) (discard_work ex_world)))"
  note failing = runCommand_failures_are_rolled_back [of ex_registry ex_info ex_bump_cmd
      "JObj [(''id'', JStr ex_r9)]" ex_actor 7 ex_world]
  note committing = runCommand_failures_are_rolled_back [of ex_registry ex_info ex_setName_cmd
      JUndefined ex_actor 7 ex_world]
  note closed = runCommand_failures_are_rolled_back [of ex_registry ex_info ex_setName_cmd
      JUndefined ex_actor 7 "ex_world\<lparr> connected := False \<rparr>"]
  have c: "connected ex_world"
    by simp
  from failing c have f1: "fst ?bump = Inr JUndefined"
    by simp
  from failing ex_bump_missing_body c
  have f2: "committed (snd ?bump) = ex_db" "current (snd ?bump) = ex_db"
    "console (snd ?bump) = [LogFailed NotRequestedInMutator]"
    by simp_all
  from committing ex_setName_body have s1: "?setName = (Inr JUndefined, ?done)"
    by blast
  have s2: "db_rows (committed (snd ?setName)) (''items'', ex_r1) = Some [JStr ''z'', JNum 5]"
    unfolding s1
    by (simp add: row_update_def coalesce_row_def nullish_def)
  from closed have x: "fst (runCommand ex_registry ex_info ex_setName_cmd JUndefined ex_actor 7
      (ex_world\<lparr> connected := False \<rparr>)) = Inl StoreError"
    by simp
  from closed x
  have y: "\<exists>e w'. runCommand_body ex_registry ex_info ex_setName_cmd JUndefined ex_actor 7
        (ex_world\<lparr> connected := False \<rparr>) = (Inl e, w') \<and>
      fst (tx_rollback (console_log (LogFailed e) w')) = Inl StoreError"
    by blast
  from ex_bump_missing_body c f1 f2 ex_setName_body s1 s2 x y
  show ?thesis by blast
qed

section \<open>The dispatcher: events without a reducer\<close>

text \<open>
  C6. An event for whose table and name no reducer is registered is passed over without
  an error: the turn of the loop leaves the working state of the store, the committed
  state, the identifiers the store will hand out and \<^verbatim>\<open>selectedObjects\<close> as they
  were, so no row is inserted or updated and no log entry is appended. The loop goes on
  as if the event were not in the list, and a command that planned only this event
  commits with the committed state unchanged (on a closed connection nothing is done at
  all). (An event whose name is falsy is passed over one step earlier, with a line on
  the console.)
\<close>

theorem unhandled_event_is_dropped:
  assumes "lookup_reducer reg (ev_table ev) (ev_name ev) = None"
  shows "(\<exists>w'. applyEvent reg info actorId now (Some ev) (sel, w) = (Inr sel, w') \<and>
            current w' = current w \<and> committed w' = committed w \<and>
            id_supply w' = id_supply w) \<and>
         (truthy (ev_name ev) \<longrightarrow>
            applyEvents reg info actorId now (before @ Some ev # after) st =
            applyEvents reg info actorId now (before @ after) st) \<and>
         (lockAndPlan info command input (committed w) = Inr (sel, [Some ev]) \<longrightarrow>
            fst (runCommand_body reg info command input actorId now w)
              = (if connected w then Inr JUndefined else Inl StoreError) \<and>
            committed (snd (runCommand reg info command input actorId now w)) = committed w)"
proof (intro conjI impI)
  show "\<exists>w'. applyEvent reg info actorId now (Some ev) (sel, w) = (Inr sel, w') \<and>
            current w' = current w \<and> committed w' = committed w \<and>
            id_supply w' = id_supply w"
    by (simp add: applyEvent_unhandled [OF assms])
next
  assume t: "truthy (ev_name ev)"
  have step: "applyEvent reg info actorId now (Some ev) (s, x) = (Inr s, x)" for s x
    using t by (simp add: applyEvent_unhandled [OF assms])
  show "applyEvents reg info actorId now (before @ Some ev # after) st =
        applyEvents reg info actorId now (before @ after) st"
    by (simp add: applyEvents_append [of _ _ _ _ before] step split: sum.splits prod.splits)
next
  assume plan: "lockAndPlan info command input (committed w) = Inr (sel, [Some ev])"
  show "fst (runCommand_body reg info command input actorId now w)
      = (if connected w then Inr JUndefined else Inl StoreError)"
    using plan
    by (cases "connected w")
       (simp_all add: runCommand_body_def applyEvent_unhandled [OF assms])
  show "committed (snd (runCommand reg info command input actorId now w)) = committed w"
  proof (cases "connected w")
    case True
    with plan show ?thesis
      by (simp add: runCommand_def try_catch_def runCommand_body_def
          applyEvent_unhandled [OF assms])
  next
    case False
    then show ?thesis
      using runCommand_after_error(1) [OF runCommand_body_closed [OF False]] by simp
  qed
qed

theorem unhandled_event_is_dropped_witness:
  "lookup_reducer ex_registry (ev_table ex_rename_event) (ev_name ex_rename_event) = None \<and>
   truthy (ev_name ex_rename_event) \<and>
   lockAndPlan ex_info ex_rename_cmd JUndefined (committed ex_world) =
     Inr ([ex_r1 \<mapsto> ex_locked_r1], [Some ex_rename_event]) \<and>
   applyEvents ex_registry ex_info ex_actor 7
       ([Some (ex_bump_event ''first'')] @ Some ex_rename_event # [Some ex_add_event])
       (Map.empty, ex_world) =
     applyEvents ex_registry ex_info ex_actor 7
       ([Some (ex_bump_event ''first'')] @ [Some ex_add_event]) (Map.empty, ex_world) \<and>
   fst (runCommand_body ex_registry ex_info ex_rename_cmd JUndefined ex_actor 7 ex_world)
     = Inr JUndefined \<and>
   committed (snd (runCommand ex_registry ex_info ex_rename_cmd JUndefined ex_actor 7 ex_world))
     = ex_db"
  using unhandled_event_is_dropped [OF ex_rename_event_unhandled, of ex_info ex_actor 7
      "[ex_r1 \<mapsto> ex_locked_r1]" ex_world
      "[Some (ex_bump_event ''first'')]" "[Some ex_add_event]" "(Map.empty, ex_world)"
      ex_rename_cmd JUndefined]
    ex_rename_lockAndPlan ex_rename_event_unhandled
  by simp (simp add: ex_rename_event_def)

section \<open>The dispatcher: fatal errors while applying\<close>

lemma applyEvent_insert_without_id:
  assumes "insert_without_id reg info ev w"
  shows "\<exists>w'. applyEvent reg info actorId now (Some ev) (sel, w) = (Inl FailedToGetId, w')"
  using assms
  by (auto simp: insert_without_id_def applyEvent_def apply_create_def
      split: option.splits reducer.splits sum.splits prod.splits jsval.splits)

text \<open>
  A modification event for a row that is not locked. When the row identifier is no name
  that \<^verbatim>\<open>selectedObjects\<close> inherits, the guard throws. When it is one, the guard lets
  the built-in through, and the turn fails later: in the updater, in the projection onto
  the columns, or at the latest in the update statement, whose cast to a UUID no
  inherited name passes.
\<close>

lemma applyEvent_modify_not_locked:
  assumes "modify_not_locked reg ev sel"
  shows "\<exists>e w'. applyEvent reg info actorId now (Some ev) (sel, w) = (Inl e, w') \<and>
           (to_key (ev_rowId ev) \<notin> set object_prototype_keys \<longrightarrow> e = NotRequestedInMutator)"
proof -
  from assms obtain updater
    where name: "truthy (ev_name ev)" and kind: "ev_kind ev = JStr ''modify''"
      and reducer: "lookup_reducer reg (ev_table ev) (ev_name ev) = Some (ModifyReducer updater)"
      and absent: "sel (to_key (ev_rowId ev)) = None"
    by (auto simp: modify_not_locked_def split: option.splits reducer.splits)
  have turn: "applyEvent reg info actorId now (Some ev) (sel, w) =
      apply_modify info actorId now updater ev (sel, w)"
    using name kind reducer by (simp add: applyEvent_def)
  show ?thesis
  proof (cases "to_key (ev_rowId ev) \<in> set object_prototype_keys")
    case False
    with absent have "selected_lookup sel (to_key (ev_rowId ev)) = None"
      by (rule selected_lookup_absent)
    with False show ?thesis
      by (simp add: turn apply_modify_def)
  next
    case True
    with absent have prev: "selected_lookup sel (to_key (ev_rowId ev))
        = Some (JBuiltin (to_key (ev_rowId ev)))"
      by (rule selected_lookup_inherited)
    have cast: "\<not> uuid_param (ev_rowId ev)"
      using True by (rule inherited_cast_fails)
    have "\<exists>e w'. apply_modify info actorId now updater ev (sel, w) = (Inl e, w')"
      using prev cast
      by (auto simp: apply_modify_def exec_update_def split: sum.splits)
    with True show ?thesis
      by (simp add: turn)
  qed
qed

text \<open>
  C2. Let the loop of \<^verbatim>\<open>runCommand\<close> have applied the events before \<open>ev\<close> without an
  error. If the insert statement executed for \<open>ev\<close> returns no string identifier, or
  \<open>ev\<close> is a modification event whose row is not among the locked rows, then the
  \<^verbatim>\<open>try\<close> block throws: the "failed to get ID" error in the first case, the "wasn't
  requested in mutator" error in the second unless the row identifier is a name every
  object inherits, for which the turn fails behind the guard. The error goes to the
  console, the rollback succeeds, and after it both the committed and the working state
  of the store are the committed state before the call: nothing the call did to rows or
  to the log persists.
\<close>

theorem apply_time_fatal_rolls_back:
  assumes plan: "lockAndPlan info command input (committed w) = Inr (sel, before @ Some ev # after)"
      and begun: "tx_begin w = (Inr u, w0)"
      and pre: "applyEvents reg info actorId now before (sel, w0) = (Inr sel1, w1)"
      and fatal: "insert_without_id reg info ev w1 \<or> modify_not_locked reg ev sel1"
  shows "(\<exists>e w'. runCommand_body reg info command input actorId now w = (Inl e, w') \<and>
            (insert_without_id reg info ev w1 \<longrightarrow> e = FailedToGetId) \<and>
            (modify_not_locked reg ev sel1 \<and>
             to_key (ev_rowId ev) \<notin> set object_prototype_keys \<longrightarrow> e = NotRequestedInMutator) \<and>
            console (snd (runCommand reg info command input actorId now w))
              = console w' @ [LogFailed e]) \<and>
         fst (runCommand reg info command input actorId now w) = Inr JUndefined \<and>
         committed (snd (runCommand reg info command input actorId now w)) = committed w \<and>
         current (snd (runCommand reg info command input actorId now w)) = committed w"
proof -
  from begun have conn: "connected w" and w0: "w0 = discard_work w"
    by (auto simp: tx_begin_def split: if_splits)
  have exclusive: "\<not> (insert_without_id reg info ev w1 \<and> modify_not_locked reg ev sel1)"
    by (auto simp: insert_without_id_def modify_not_locked_def)
  from fatal obtain e w2
    where step: "applyEvent reg info actorId now (Some ev) (sel1, w1) = (Inl e, w2)"
      and e1: "insert_without_id reg info ev w1 \<longrightarrow> e = FailedToGetId"
      and e2: "modify_not_locked reg ev sel1 \<and>
          to_key (ev_rowId ev) \<notin> set object_prototype_keys \<longrightarrow> e = NotRequestedInMutator"
  proof
    assume a: "insert_without_id reg info ev w1"
    from applyEvent_insert_without_id [OF a, of actorId now sel1] exclusive a
    show ?thesis by (auto intro: that)
  next
    assume a: "modify_not_locked reg ev sel1"
    from applyEvent_modify_not_locked [OF a, of info actorId now w1] exclusive a
    show ?thesis by (auto intro: that)
  qed
  have loop: "applyEvents reg info actorId now (before @ Some ev # after) (sel, discard_work w)
      = (Inl e, w2)"
    using pre step by (simp add: applyEvents_append [of _ _ _ _ before] w0)
  have body: "runCommand_body reg info command input actorId now w = (Inl e, w2)"
    using plan loop conn by (simp add: runCommand_body_def)
  have c: "committed w2 = committed w"
    using body by (rule runCommand_body_committed_on_error)
  note run = runCommand_after_error(3) [OF body conn]
  show ?thesis
    using body e1 e2 c by (simp add: run)
qed

theorem apply_time_fatal_rolls_back_witness:
  "lockAndPlan ex_info ex_stray_cmd JUndefined (committed ex_world) =
     Inr ([ex_r1 \<mapsto> ex_locked_r1], [Some (ex_bump_event ''first'')] @ Some ex_stray_event # []) \<and>
   db_rows (current (snd (applyEvents ex_registry ex_info ex_actor 7 [Some (ex_bump_event ''first'')]
       ([ex_r1 \<mapsto> ex_locked_r1], discard_work ex_world)))) (''items'', ex_r1)
     = Some [JStr ''a'', JNum 6] \<and>
   modify_not_locked ex_registry ex_stray_event
     [ex_r1 \<mapsto> JObj [(''id'', JStr ex_r1), (''name'', JStr ''a''), (''value'', JNum 6)]] \<and>
   committed (snd (runCommand ex_registry ex_info ex_stray_cmd JUndefined ex_actor 7 ex_world)) = ex_db \<and>
   current (snd (runCommand ex_registry ex_info ex_stray_cmd JUndefined ex_actor 7 ex_world)) = ex_db \<and>
   modify_not_locked ex_registry ex_inherited_event [ex_r1 \<mapsto> ex_locked_r1] \<and>
   to_key (ev_rowId ex_inherited_event) \<in> set object_prototype_keys \<and>
   runCommand_body ex_registry ex_info ex_inherited_cmd JUndefined ex_actor 7 ex_world
     = (Inl StoreError, discard_work ex_world) \<and>
   committed (snd (runCommand ex_registry ex_info ex_inherited_cmd JUndefined ex_actor 7 ex_world))
     = ex_db \<and>
   insert_without_id ex_registry ex_info ex_add_event (discard_work (ex_world\<lparr> id_supply := [None] \<rparr>)) \<and>
   committed (snd (runCommand ex_registry ex_info ex_addItem_cmd
       (JObj [(''name'', JStr ''b''), (''value'', JNum 1)]) ex_actor 7
       (ex_world\<lparr> id_supply := [None] \<rparr>))) = ex_db"
proof -
  have begun: "tx_begin ex_world = (Inr (), discard_work ex_world)"
    by simp
  have plan: "lockAndPlan ex_info ex_stray_cmd JUndefined (committed ex_world) =
     Inr ([ex_r1 \<mapsto> ex_locked_r1], [Some (ex_bump_event ''first'')] @ Some ex_stray_event # [])"
    by (simp add: ex_stray_lockAndPlan)
  have pre: "applyEvents ex_registry ex_info ex_actor 7 [Some (ex_bump_event ''first'')]
       ([ex_r1 \<mapsto> ex_locked_r1], discard_work ex_world) =
     (Inr [ex_r1 \<mapsto> JObj [(''id'', JStr ex_r1), (''name'', JStr ''a''), (''value'', JNum 6)]],
      log_append (log_entry_of (ex_bump_event ''first'') (JStr ex_r1) ex_actor 7)
        (row_update ''items'' [JNull, JNum 6] (Some ex_r1) (discard_work ex_world)))"
    using ex_bump_any [of 7 "''first''" 5 "discard_work ex_world"]
    by (simp add: ex_locked_r1_def)
  have row: "db_rows (current (snd (applyEvents ex_registry ex_info ex_actor 7
       [Some (ex_bump_event ''first'')] ([ex_r1 \<mapsto> ex_locked_r1], discard_work ex_world))))
       (''items'', ex_r1) = Some [JStr ''a'', JNum 6]"
    unfolding pre
    by (simp add: row_update_def coalesce_row_def nullish_def)
  note a = apply_time_fatal_rolls_back [OF plan begun pre disjI2 [OF ex_stray_not_locked]]
  have plan_i: "lockAndPlan ex_info ex_inherited_cmd JUndefined (committed ex_world) =
     Inr ([ex_r1 \<mapsto> ex_locked_r1], [] @ Some ex_inherited_event # [])"
    by (simp add: ex_inherited_lockAndPlan)
  have pre_i: "applyEvents ex_registry ex_info ex_actor 7 []
       ([ex_r1 \<mapsto> ex_locked_r1], discard_work ex_world)
     = (Inr [ex_r1 \<mapsto> ex_locked_r1], discard_work ex_world)"
    by simp
  note i = apply_time_fatal_rolls_back [OF plan_i begun pre_i disjI2 [OF ex_inherited_not_locked]]
  have inherited: "to_key (ev_rowId ex_inherited_event) \<in> set object_prototype_keys"
    by (simp add: ex_inherited_event_def object_prototype_keys_def)
  have body_i: "runCommand_body ex_registry ex_info ex_inherited_cmd JUndefined ex_actor 7 ex_world
     = (Inl StoreError, discard_work ex_world)"
    using inherited_cast_fails [OF inherited]
    by (simp add: runCommand_body_def ex_inherited_lockAndPlan applyEvent_def apply_modify_def
        ex_registry_lookup ex_inherited_event_def selected_lookup_def ex_r1_def
        object_prototype_keys_def ex_setter_def ex_info_items rowData_of_def exec_update_def)
  have begun2: "tx_begin (ex_world\<lparr> id_supply := [None] \<rparr>)
      = (Inr (), discard_work (ex_world\<lparr> id_supply := [None] \<rparr>))"
    by simp
  have plan2: "lockAndPlan ex_info ex_addItem_cmd (JObj [(''name'', JStr ''b''), (''value'', JNum 1)])
       (committed (ex_world\<lparr> id_supply := [None] \<rparr>)) = Inr (Map.empty, [] @ Some ex_add_event # [])"
    by (simp add: ex_addItem_lockAndPlan)
  have pre2: "applyEvents ex_registry ex_info ex_actor 7 []
       (Map.empty, discard_work (ex_world\<lparr> id_supply := [None] \<rparr>))
     = (Inr Map.empty, discard_work (ex_world\<lparr> id_supply := [None] \<rparr>))"
    by simp
  note b = apply_time_fatal_rolls_back [OF plan2 begun2 pre2 disjI1 [OF ex_add_without_id]]
  show ?thesis
    using plan row ex_stray_not_locked ex_inherited_not_locked inherited body_i
      ex_add_without_id a i b
    by simp
qed

section \<open>The dispatcher: order of the log\<close>

lemma apply_create_log:
  assumes "apply_create info actorId now creator ev (sel, w) = (Inr sel', w')"
      and "ev_kind ev = JStr ''create''"
  shows "\<exists>entry. records_event actorId now ev entry \<and>
           db_events (current w') = db_events (current w) @ [entry]"
proof -
  from assms(1) obtain rowData rows w1 rid u
    where ins: "exec_insert (to_key (ev_table ev)) rowData w = (Inr rows, w1)"
      and add: "exec_addEvent (log_entry_of ev (JStr rid) actorId now) w1 = (Inr u, w')"
    by (auto simp: apply_create_def split: sum.splits prod.splits jsval.splits)
  have "db_events (current w1) = db_events (current w)"
    using exec_insert_frame [OF ins] by simp
  with exec_addEvent_log [OF add] have "db_events (current w') =
      db_events (current w) @ [log_entry_of ev (JStr rid) actorId now]"
    by simp
  moreover have "records_event actorId now ev (log_entry_of ev (JStr rid) actorId now)"
    using assms(2) by (simp add: records_event_def log_entry_of_def)
  ultimately show ?thesis by blast
qed

lemma apply_modify_log:
  assumes "apply_modify info actorId now updater ev (sel, w) = (Inr sel', w')"
      and "ev_kind ev = JStr ''modify''"
  shows "\<exists>entry. records_event actorId now ev entry \<and>
           db_events (current w') = db_events (current w) @ [entry]"
proof -
  from assms(1) obtain rowData w1 u u'
    where upd: "exec_update (to_key (ev_table ev)) rowData (nullish_coalesce (ev_rowId ev) JNull) w
        = (Inr u, w1)"
      and add: "exec_addEvent (log_entry_of ev (ev_rowId ev) actorId now) w1 = (Inr u', w')"
    by (auto simp: apply_modify_def split: sum.splits option.splits if_splits prod.splits)
  have "db_events (current w1) = db_events (current w)"
    using exec_update_frame [OF upd] by simp
  with exec_addEvent_log [OF add] have "db_events (current w') =
      db_events (current w) @ [log_entry_of ev (ev_rowId ev) actorId now]"
    by simp
  moreover have "records_event actorId now ev (log_entry_of ev (ev_rowId ev) actorId now)"
    using assms(2) by (simp add: records_event_def log_entry_of_def)
  ultimately show ?thesis by blast
qed

lemma applyEvent_log:
  assumes "applyEvent reg info actorId now planned (sel, w) = (Inr sel', w')"
  shows "db_events (current w') = db_events (current w) \<or>
         (\<exists>ev entry. planned = Some ev \<and> records_event actorId now ev entry \<and>
            db_events (current w') = db_events (current w) @ [entry])"
proof (cases planned)
  case None
  with assms show ?thesis by (simp add: applyEvent_def)
next
  case (Some ev)
  show ?thesis
  proof (cases "truthy (ev_name ev)")
    case False
    with assms Some show ?thesis by (auto simp: applyEvent_def)
  next
    case True
    show ?thesis
    proof (cases "lookup_reducer reg (ev_table ev) (ev_name ev)")
      case None
      with assms Some True show ?thesis by (auto simp: applyEvent_def)
    next
      case (Some r)
      show ?thesis
      proof (cases r)
        case (CreateReducer creator)
        show ?thesis
        proof (cases "ev_kind ev = JStr ''create''")
          case k: True
          with assms \<open>planned = Some ev\<close> True Some CreateReducer
          have "apply_create info actorId now creator ev (sel, w) = (Inr sel', w')"
            by (simp add: applyEvent_def)
          from apply_create_log [OF this k] \<open>planned = Some ev\<close> show ?thesis by blast
        next
          case False
          with assms \<open>planned = Some ev\<close> True Some CreateReducer show ?thesis
            by (auto simp: applyEvent_def)
        qed
      next
        case (ModifyReducer updater)
        show ?thesis
        proof (cases "ev_kind ev = JStr ''modify''")
          case k: True
          with assms \<open>planned = Some ev\<close> True Some ModifyReducer
          have "apply_modify info actorId now updater ev (sel, w) = (Inr sel', w')"
            by (simp add: applyEvent_def)
          from apply_modify_log [OF this k] \<open>planned = Some ev\<close> show ?thesis by blast
        next
          case False
          with assms \<open>planned = Some ev\<close> True Some ModifyReducer show ?thesis
            by (auto simp: applyEvent_def)
        qed
      qed
    qed
  qed
qed

lemma applyEvents_log:
  assumes "applyEvents reg info actorId now events (sel, w) = (Inr sel', w')"
  shows "\<exists>applied new. subseq (map Some applied) events \<and>
           list_all2 (records_event actorId now) applied new \<and>
           db_events (current w') = db_events (current w) @ new"
  using assms
proof (induction events arbitrary: sel w)
  case Nil
  then have "db_events (current w') = db_events (current w) @ []" by simp
  then show ?case
    by (intro exI [of _ "[]"]) simp
next
  case (Cons planned rest)
  obtain r1 w1 where step: "applyEvent reg info actorId now planned (sel, w) = (r1, w1)"
    by (cases "applyEvent reg info actorId now planned (sel, w)")
  with Cons.prems obtain sel1 where r1: "r1 = Inr sel1"
    and rest: "applyEvents reg info actorId now rest (sel1, w1) = (Inr sel', w')"
    by (cases r1) auto
  from Cons.IH [OF rest] obtain applied new
    where sub: "subseq (map Some applied) rest"
      and rec: "list_all2 (records_event actorId now) applied new"
      and log: "db_events (current w') = db_events (current w1) @ new"
    by blast
  from applyEvent_log [OF step [unfolded r1]]
  show ?case
  proof
    assume "db_events (current w1) = db_events (current w)"
    with sub rec log show ?thesis
      by (intro exI [of _ applied] exI [of _ new]) auto
  next
    assume "\<exists>ev entry. planned = Some ev \<and> records_event actorId now ev entry \<and>
        db_events (current w1) = db_events (current w) @ [entry]"
    then obtain ev entry where p: "planned = Some ev"
      and e: "records_event actorId now ev entry"
      and l: "db_events (current w1) = db_events (current w) @ [entry]"
      by blast
    show ?thesis
      using sub rec log p e l
      by (intro exI [of _ "ev # applied"] exI [of _ "entry # new"]) auto
  qed
qed

lemma list_all2_filter_right:
  assumes "list_all2 P xs ys"
  shows "\<exists>xs'. subseq xs' xs \<and> list_all2 P xs' (filter Q ys)"
  using assms
proof (induction rule: list_all2_induct)
  case Nil
  then show ?case by simp
next
  case (Cons x xs y ys)
  then obtain xs' where "subseq xs' xs" "list_all2 P xs' (filter Q ys)" by blast
  then show ?case
    using Cons.hyps(1)
    by (cases "Q y") (auto intro: exI [of _ "x # xs'"] exI [of _ xs'])
qed

text \<open>
  C3. When \<^verbatim>\<open>runCommand\<close> commits, the log after the call is the log before it followed
  by new entries, and the new entries are, one for one and in the same order, records of
  a subsequence of the events that \<^verbatim>\<open>planActions\<close> returned (the events that were
  applied). The same holds for the new entries of any one row: they stand in the order
  in which their events were planned.
\<close>

theorem log_appended_in_planning_order:
  assumes plan: "lockAndPlan info command input (committed w) = Inr (sel, events)"
      and commits: "fst (runCommand_body reg info command input actorId now w) = Inr v"
  shows "\<exists>applied new.
           subseq (map Some applied) events \<and>
           list_all2 (records_event actorId now) applied new \<and>
           db_events (committed (snd (runCommand reg info command input actorId now w)))
             = db_events (committed w) @ new \<and>
           (\<forall>table rowId. \<exists>applied_row.
              subseq (map Some applied_row) events \<and>
              list_all2 (records_event actorId now) applied_row
                (filter (entry_of_row table rowId) new))"
proof -
  have conn: "connected w"
    using commits runCommand_body_closed [of w reg info command input actorId now]
    by (cases "connected w") auto
  from plan commits conn obtain sel' w2
    where loop: "applyEvents reg info actorId now events (sel, discard_work w) = (Inr sel', w2)"
      and body: "runCommand_body reg info command input actorId now w
          = (Inr JUndefined, keep_work w2)"
    by (auto simp: runCommand_body_def split: sum.splits prod.splits dest!: applyEvents_frame)
  from applyEvents_log [OF loop] obtain applied new
    where sub: "subseq (map Some applied) events"
      and rec: "list_all2 (records_event actorId now) applied new"
      and log: "db_events (current w2) = db_events (committed w) @ new"
    by auto
  have final: "db_events (committed (snd (runCommand reg info command input actorId now w)))
      = db_events (committed w) @ new"
    by (simp add: runCommand_def try_catch_def body log)
  have rows: "\<exists>applied_row. subseq (map Some applied_row) events \<and>
      list_all2 (records_event actorId now) applied_row (filter (entry_of_row table rowId) new)"
    for table rowId
  proof -
    from list_all2_filter_right [OF rec, of "entry_of_row table rowId"]
    obtain xs' where s: "subseq xs' applied"
      and r: "list_all2 (records_event actorId now) xs' (filter (entry_of_row table rowId) new)"
      by blast
    from s have "subseq (map Some xs') (map Some applied)"
      by (rule subseq_map)
    with sub have "subseq (map Some xs') events"
      by (rule subseq_order.trans [rotated])
    with r show ?thesis by blast
  qed
  from sub rec final rows show ?thesis by blast
qed

lemma ex_batch_body:
  "\<exists>w'. runCommand_body ex_registry ex_info ex_batch_cmd JUndefined ex_actor 7 ex_world
      = (Inr JUndefined, w') \<and>
     db_events (committed w') =
       [log_entry_of (ex_bump_event ''first'') (JStr ex_r1) ex_actor 7,
        log_entry_of ex_add_event (JStr ex_r2) ex_actor 7,
        log_entry_of (ex_bump_event ''second'') (JStr ex_r1) ex_actor 7] \<and>
     db_rows (committed w') (''items'', ex_r1) = Some [JStr ''a'', JNum 7]"
  apply (simp add: runCommand_body_def ex_batch_lockAndPlan)
  apply (simp add: ex_locked_r1_def ex_bump_any applyEvent_def [of _ _ _ _ None] ex_rename_skip)
  apply (subst ex_add_apply)
    apply simp
   apply (simp add: row_update_def)
  apply (simp add: ex_bump_any)
  apply (simp add: row_update_def coalesce_row_def nullish_def)
  done

theorem log_appended_in_planning_order_witness:
  "lockAndPlan ex_info ex_batch_cmd JUndefined (committed ex_world) =
     Inr ([ex_r1 \<mapsto> ex_locked_r1],
          [Some (ex_bump_event ''first''), None, Some ex_rename_event,
           Some ex_add_event, Some (ex_bump_event ''second'')]) \<and>
   fst (runCommand_body ex_registry ex_info ex_batch_cmd JUndefined ex_actor 7 ex_world)
     = Inr JUndefined \<and>
   (\<exists>applied applied_row.
      subseq (map Some applied)
        [Some (ex_bump_event ''first''), None, Some ex_rename_event,
         Some ex_add_event, Some (ex_bump_event ''second'')] \<and>
      list_all2 (records_event ex_actor 7) applied
        [log_entry_of (ex_bump_event ''first'') (JStr ex_r1) ex_actor 7,
         log_entry_of ex_add_event (JStr ex_r2) ex_actor 7,
         log_entry_of (ex_bump_event ''second'') (JStr ex_r1) ex_actor 7] \<and>
      db_events (committed (snd (runCommand ex_registry ex_info ex_batch_cmd JUndefined
         ex_actor 7 ex_world))) =
        db_events (committed ex_world) @
        [log_entry_of (ex_bump_event ''first'') (JStr ex_r1) ex_actor 7,
         log_entry_of ex_add_event (JStr ex_r2) ex_actor 7,
         log_entry_of (ex_bump_event ''second'') (JStr ex_r1) ex_actor 7] \<and>
      subseq (map Some applied_row)
        [Some (ex_bump_event ''first''), None, Some ex_rename_event,
         Some ex_add_event, Some (ex_bump_event ''second'')] \<and>
      list_all2 (records_event ex_actor 7) applied_row
        [log_entry_of (ex_bump_event ''first'') (JStr ex_r1) ex_actor 7,
         log_entry_of (ex_bump_event ''second'') (JStr ex_r1) ex_actor 7])"
proof -
  let ?events = "[Some (ex_bump_event ''first''), None, Some ex_rename_event,
           Some ex_add_event, Some (ex_bump_event ''second'')]"
  let ?log = "[log_entry_of (ex_bump_event ''first'') (JStr ex_r1) ex_actor 7,
        log_entry_of ex_add_event (JStr ex_r2) ex_actor 7,
        log_entry_of (ex_bump_event ''second'') (JStr ex_r1) ex_actor 7]"
  have plan: "lockAndPlan ex_info ex_batch_cmd JUndefined (committed ex_world) =
     Inr ([ex_r1 \<mapsto> ex_locked_r1], ?events)"
    by (simp add: ex_batch_lockAndPlan)
  from ex_batch_body obtain w'
    where body: "runCommand_body ex_registry ex_info ex_batch_cmd JUndefined ex_actor 7 ex_world
        = (Inr JUndefined, w')"
      and log: "db_events (committed w') = ?log"
    by blast
  have commits: "fst (runCommand_body ex_registry ex_info ex_batch_cmd JUndefined ex_actor 7 ex_world)
      = Inr JUndefined"
    by (simp add: body)
  have run: "db_events (committed (snd (runCommand ex_registry ex_info ex_batch_cmd JUndefined
      ex_actor 7 ex_world))) = ?log"
    by (simp add: runCommand_def try_catch_def body log)
  from log_appended_in_planning_order [OF plan commits]
  obtain applied new
    where sub: "subseq (map Some applied) ?events"
      and rec: "list_all2 (records_event ex_actor 7) applied new"
      and final: "db_events (committed (snd (runCommand ex_registry ex_info ex_batch_cmd JUndefined
          ex_actor 7 ex_world))) = db_events (committed ex_world) @ new"
      and rows: "\<forall>table rowId. \<exists>applied_row.
          subseq (map Some applied_row) ?events \<and>
          list_all2 (records_event ex_actor 7) applied_row (filter (entry_of_row table rowId) new)"
    by blast
  from final run have new: "new = ?log"
    by simp
  from rows obtain applied_row
    where sub_row: "subseq (map Some applied_row) ?events"
      and rec_row: "list_all2 (records_event ex_actor 7) applied_row
          (filter (entry_of_row ''items'' ex_r1) new)"
    by blast
  have "filter (entry_of_row ''items'' ex_r1) ?log =
      [log_entry_of (ex_bump_event ''first'') (JStr ex_r1) ex_actor 7,
       log_entry_of (ex_bump_event ''second'') (JStr ex_r1) ex_actor 7]"
    by (simp add: entry_of_row_def log_entry_of_def ex_bump_event_def ex_add_event_def)
  with rec_row new have rec_row': "list_all2 (records_event ex_actor 7) applied_row
      [log_entry_of (ex_bump_event ''first'') (JStr ex_r1) ex_actor 7,
       log_entry_of (ex_bump_event ''second'') (JStr ex_r1) ex_actor 7]"
    by simp
  from final new have final': "db_events (committed (snd (runCommand ex_registry ex_info ex_batch_cmd
      JUndefined ex_actor 7 ex_world))) = db_events (committed ex_world) @ ?log"
    by simp
  from plan commits sub rec [unfolded new] final' sub_row rec_row'
  show ?thesis by blast
qed

section \<open>The dispatcher: the same modification twice\<close>

lemma runCommand_connected:
  "connected (snd (runCommand reg info command input actorId now w)) = connected w"
proof (cases "runCommand_body reg info command input actorId now w")
  case (Pair r w')
  then have c: "connected w' = connected w"
    by (rule runCommand_body_connected)
  show ?thesis
  proof (cases r)
    case (Inl e)
    with Pair c runCommand_after_error(3,4) [of reg info command input actorId now w e w']
    show ?thesis by (cases "connected w") simp_all
  next
    case (Inr v)
    with Pair c show ?thesis by (simp add: runCommand_def try_catch_def)
  qed
qed

lemma ex_bump_r1_run:
  assumes "db_rows (committed w) (''items'', ex_r1) = Some [JStr nm, JNum n]" and "connected w"
  shows "snd (runCommand ex_registry ex_info ex_bump_cmd (JObj [(''id'', JStr ex_r1)]) ex_actor t w) =
      keep_work (log_append (log_entry_of ex_bump_r1_event (JStr ex_r1) ex_actor t)
        (row_update ''items'' [JNull, JNum (n + 1)] (Some ex_r1) (discard_work w)))"
proof -
  let ?prev = "JObj [(''id'', JStr ex_r1), (''name'', JStr nm), (''value'', JNum n)]"
  have "runCommand ex_registry ex_info ex_bump_cmd (JObj [(''id'', JStr ex_r1)]) ex_actor t w =
      (Inr JUndefined,
       keep_work (log_append (log_entry_of ex_bump_r1_event (ev_rowId ex_bump_r1_event) ex_actor t)
        (row_update (to_key (ev_table ex_bump_r1_event)) [JNull, JNum (n + 1)]
           (uuid_of (ev_rowId ex_bump_r1_event)) (discard_work w))))"
  proof (rule runCommand_single_modify [where sel = "[ex_r1 \<mapsto> ?prev]" and updater = ex_updater
        and prev = ?prev and partial = "JObj [(''value'', JNum (n + 1))]"])
    show "lockAndPlan ex_info ex_bump_cmd (JObj [(''id'', JStr ex_r1)]) (committed w) =
        Inr ([ex_r1 \<mapsto> ?prev], [Some ex_bump_r1_event])"
      using assms(1) by (rule ex_bump_r1_lockAndPlan)
  qed (simp_all add: assms(2) ex_bump_r1_event_def ex_registry_lookup ex_updater_def ex_info_items
      rowData_of_def nullish_coalesce_def nullish_def)
  then show ?thesis
    by (simp add: ex_bump_r1_event_def)
qed

text \<open>
  C9, as stated, fails: \<^verbatim>\<open>bump\<close> dispatched twice for the row \<open>ex_r1\<close> plans the same
  modification event both times, and its updater adds one to the previous value, so the
  row holds 6 after the first call and 7 after the second.
\<close>

theorem same_modify_event_twice_counterexample:
  "lockAndPlan ex_info ex_bump_cmd (JObj [(''id'', JStr ex_r1)]) (committed ex_world) =
     Inr ([ex_r1 \<mapsto> JObj [(''id'', JStr ex_r1), (''name'', JStr ''a''), (''value'', JNum 5)]],
          [Some ex_bump_r1_event]) \<and>
   lockAndPlan ex_info ex_bump_cmd (JObj [(''id'', JStr ex_r1)])
       (committed (snd (runCommand ex_registry ex_info ex_bump_cmd (JObj [(''id'', JStr ex_r1)])
          ex_actor 7 ex_world))) =
     Inr ([ex_r1 \<mapsto> JObj [(''id'', JStr ex_r1), (''name'', JStr ''a''), (''value'', JNum 6)]],
          [Some ex_bump_r1_event]) \<and>
   db_rows (committed (snd (runCommand ex_registry ex_info ex_bump_cmd (JObj [(''id'', JStr ex_r1)])
      ex_actor 7 ex_world))) (''items'', ex_r1) = Some [JStr ''a'', JNum 6] \<and>
   db_rows (committed (snd (runCommand ex_registry ex_info ex_bump_cmd (JObj [(''id'', JStr ex_r1)])
      ex_actor 8
      (snd (runCommand ex_registry ex_info ex_bump_cmd (JObj [(''id'', JStr ex_r1)])
         ex_actor 7 ex_world))))) (''items'', ex_r1) = Some [JStr ''a'', JNum 7] \<and>
   db_rows (committed (snd (runCommand ex_registry ex_info ex_bump_cmd (JObj [(''id'', JStr ex_r1)])
      ex_actor 8
      (snd (runCommand ex_registry ex_info ex_bump_cmd (JObj [(''id'', JStr ex_r1)])
         ex_actor 7 ex_world))))) \<noteq>
   db_rows (committed (snd (runCommand ex_registry ex_info ex_bump_cmd (JObj [(''id'', JStr ex_r1)])
      ex_actor 7 ex_world)))"
proof -
  let ?run1 = "snd (runCommand ex_registry ex_info ex_bump_cmd (JObj [(''id'', JStr ex_r1)])
      ex_actor 7 ex_world)"
  let ?run2 = "snd (runCommand ex_registry ex_info ex_bump_cmd (JObj [(''id'', JStr ex_r1)])
      ex_actor 8 ?run1)"
  have r0: "db_rows (committed ex_world) (''items'', ex_r1) = Some [JStr ''a'', JNum 5]"
    and c0: "connected ex_world"
    by simp_all
  have r1: "db_rows (committed ?run1) (''items'', ex_r1) = Some [JStr ''a'', JNum 6]"
    using ex_update_r1 [OF r0, where p = JNull and m = 6]
    by (simp add: ex_bump_r1_run [OF r0 c0] nullish_def)
  have c1: "connected ?run1"
    by (simp add: runCommand_connected)
  have r2: "db_rows (committed ?run2) (''items'', ex_r1) = Some [JStr ''a'', JNum 7]"
    using ex_update_r1 [OF r1, where p = JNull and m = 7]
    by (simp add: ex_bump_r1_run [OF r1 c1] nullish_def)
  from r1 r2 have "db_rows (committed ?run2) \<noteq> db_rows (committed ?run1)"
    by (metis jsval.inject(2) list.inject option.inject numeral_eq_iff semiring_norm(89))
  with ex_bump_r1_lockAndPlan [OF r0] ex_bump_r1_lockAndPlan [OF r1] r1 r2
  show ?thesis by blast
qed

text \<open>
  C9, as amended. Let the same command be dispatched twice with the same input, nothing
  else happening in between, and let it plan the same single modification event both
  times. If the updater returns the same partial row on both applications (for example
  because it does not depend on the previous row), the rows of the store after the
  second call are those after the first, and each call appends one entry for the event
  to the log. (The calls append nothing when the store refuses them: on a closed
  connection, or for an actor whose identifier is not a UUID.)
\<close>

theorem repeated_modify_same_partial:
  assumes reducer: "lookup_reducer reg (ev_table ev) (ev_name ev) = Some (ModifyReducer updater)"
      and name: "truthy (ev_name ev)" and kind: "ev_kind ev = JStr ''modify''"
      and w1: "w1 = snd (runCommand reg info command input actorId now w)"
      and w2: "w2 = snd (runCommand reg info command input actorId now' w1)"
      and plan1: "lockAndPlan info command input (committed w) = Inr (sel, [Some ev])"
      and plan2: "lockAndPlan info command input (committed w1) = Inr (sel', [Some ev])"
      and locked1: "sel (to_key (ev_rowId ev)) = Some prev" "truthy prev"
      and locked2: "sel' (to_key (ev_rowId ev)) = Some prev'" "truthy prev'"
      and first: "updater prev (ev_data ev) = Inr partial"
      and again: "updater prev' (ev_data ev) = Inr partial"
      and cols: "rowData_of (namesForTable info (to_key (ev_table ev))) partial = Inr rowData"
  shows "db_rows (committed w2) = db_rows (committed w1) \<and>
         db_events (committed w1) =
           db_events (committed w) @
           (if connected w \<and> is_uuid actorId
            then [log_entry_of ev (ev_rowId ev) actorId now] else []) \<and>
         db_events (committed w2) =
           db_events (committed w1) @
           (if connected w \<and> is_uuid actorId
            then [log_entry_of ev (ev_rowId ev) actorId now'] else [])"
proof (cases "connected w \<and> is_uuid actorId")
  case True
  then have conn: "connected w" and actor: "is_uuid actorId" by simp_all
  let ?t = "to_key (ev_table ev)" and ?rid = "uuid_of (ev_rowId ev)"
  have r1: "w1 = keep_work (log_append (log_entry_of ev (ev_rowId ev) actorId now)
        (row_update ?t rowData ?rid (discard_work w)))"
    unfolding w1
    using runCommand_single_modify [where sel = sel and updater = updater and prev = prev,
          OF plan1 reducer name kind locked1 first cols conn actor, of now]
    by simp
  have conn1: "connected w1"
    using conn by (simp add: w1 runCommand_connected)
  have r2: "w2 = keep_work (log_append (log_entry_of ev (ev_rowId ev) actorId now')
        (row_update ?t rowData ?rid (discard_work w1)))"
    unfolding w2
    using runCommand_single_modify [where sel = sel' and updater = updater and prev = prev',
          OF plan2 reducer name kind locked2 again cols conn1 actor, of now']
    by simp
  have rows1: "db_rows (current (discard_work w1))
      = db_rows (current (row_update ?t rowData ?rid (discard_work w)))"
    by (simp add: r1)
  have "db_rows (committed w2) = db_rows (current (row_update ?t rowData ?rid (discard_work w1)))"
    by (simp add: r2)
  also have "\<dots> = db_rows (current (discard_work w1))"
    using rows1 by (rule row_update_again)
  also have "\<dots> = db_rows (committed w1)"
    by simp
  finally have rows: "db_rows (committed w2) = db_rows (committed w1)" .
  have e1: "db_events (committed w1) =
      db_events (committed w) @ [log_entry_of ev (ev_rowId ev) actorId now]"
    by (simp add: r1)
  have e2: "db_events (committed w2) =
      db_events (committed w1) @ [log_entry_of ev (ev_rowId ev) actorId now']"
    by (simp add: r2)
  from rows e1 e2 True show ?thesis by simp
next
  case False
  have conn1: "connected w1 = connected w"
    by (simp add: w1 runCommand_connected)
  have fails: "\<exists>e w'. runCommand_body reg info command input actorId t x = (Inl e, w')"
    if "connected x = connected w"
      and "lockAndPlan info command input (committed x) = Inr (s, [Some ev])"
      and "s (to_key (ev_rowId ev)) = Some p" "truthy p" "updater p (ev_data ev) = Inr partial"
    for x t s p
  proof (cases "connected x")
    case closed: False
    then show ?thesis
      using runCommand_body_closed by blast
  next
    case opened: True
    with that(1) False have "\<not> is_uuid actorId" by simp
    from runCommand_single_modify_bad_actor [where sel = s and updater = updater and prev = p,
        OF that(2) reducer name kind that(3,4,5) cols opened this]
    show ?thesis by blast
  qed
  from fails [OF refl plan1 locked1 first, of now]
  have c1: "committed w1 = committed w"
    unfolding w1 using runCommand_after_error(1) by blast
  from fails [OF conn1 plan2 locked2 again, of now']
  have c2: "committed w2 = committed w1"
    unfolding w2 using runCommand_after_error(1) by blast
  from c1 c2 False show ?thesis by simp
qed

theorem repeated_modify_same_partial_witness:
  "lookup_reducer ex_registry (ev_table ex_setName_event) (ev_name ex_setName_event)
     = Some (ModifyReducer ex_setter) \<and>
   lockAndPlan ex_info ex_setName_cmd JUndefined (committed ex_world) =
     Inr ([ex_r1 \<mapsto> JObj [(''id'', JStr ex_r1), (''name'', JStr ''a''), (''value'', JNum 5)]],
          [Some ex_setName_event]) \<and>
   lockAndPlan ex_info ex_setName_cmd JUndefined
       (committed (snd (runCommand ex_registry ex_info ex_setName_cmd JUndefined ex_actor 7 ex_world))) =
     Inr ([ex_r1 \<mapsto> JObj [(''id'', JStr ex_r1), (''name'', JStr ''z''), (''value'', JNum 5)]],
          [Some ex_setName_event]) \<and>
   connected ex_world \<and> is_uuid ex_actor \<and>
   db_rows (committed (snd (runCommand ex_registry ex_info ex_setName_cmd JUndefined ex_actor 7 ex_world)))
       (''items'', ex_r1) = Some [JStr ''z'', JNum 5] \<and>
   db_rows (committed (snd (runCommand ex_registry ex_info ex_setName_cmd JUndefined ex_actor 8
       (snd (runCommand ex_registry ex_info ex_setName_cmd JUndefined ex_actor 7 ex_world)))))
     = db_rows (committed (snd (runCommand ex_registry ex_info ex_setName_cmd JUndefined ex_actor 7
          ex_world))) \<and>
   db_events (committed (snd (runCommand ex_registry ex_info ex_setName_cmd JUndefined ex_actor 8
       (snd (runCommand ex_registry ex_info ex_setName_cmd JUndefined ex_actor 7 ex_world)))))
     = [log_entry_of ex_setName_event (JStr ex_r1) ex_actor 7,
        log_entry_of ex_setName_event (JStr ex_r1) ex_actor 8]"
proof -
  let ?w1 = "snd (runCommand ex_registry ex_info ex_setName_cmd JUndefined ex_actor 7 ex_world)"
  let ?w2 = "snd (runCommand ex_registry ex_info ex_setName_cmd JUndefined ex_actor 8 ?w1)"
  let ?prev = "JObj [(''id'', JStr ex_r1), (''name'', JStr ''a''), (''value'', JNum 5)]"
  let ?prev' = "JObj [(''id'', JStr ex_r1), (''name'', JStr ''z''), (''value'', JNum 5)]"
  let ?partial = "JObj [(''name'', JStr ''z'')]"
  have reducer: "lookup_reducer ex_registry (ev_table ex_setName_event) (ev_name ex_setName_event)
      = Some (ModifyReducer ex_setter)"
    and name: "truthy (ev_name ex_setName_event)"
    and kind: "ev_kind ex_setName_event = JStr ''modify''"
    and rid: "ev_rowId ex_setName_event = JStr ex_r1"
    and tbl: "ev_table ex_setName_event = JStr ''items''"
    by (simp_all add: ex_setName_event_def ex_registry_lookup)
  have first: "ex_setter ?prev (ev_data ex_setName_event) = Inr ?partial"
    and again: "ex_setter ?prev' (ev_data ex_setName_event) = Inr ?partial"
    by (simp_all add: ex_setter_def ex_setName_event_def)
  have cols: "rowData_of (namesForTable ex_info (to_key (ev_table ex_setName_event))) ?partial
      = Inr [JStr ''z'', JNull]"
    by (simp add: tbl ex_info_items rowData_of_def nullish_coalesce_def nullish_def)
  have r0: "db_rows (committed ex_world) (''items'', ex_r1) = Some [JStr ''a'', JNum 5]"
    and c0: "connected ex_world" and a0: "is_uuid ex_actor"
    by simp_all
  note plan1 = ex_setName_lockAndPlan [OF r0, of JUndefined]
  have l1: "[ex_r1 \<mapsto> ?prev] (to_key (ev_rowId ex_setName_event)) = Some ?prev" "truthy ?prev"
    and l2: "[ex_r1 \<mapsto> ?prev'] (to_key (ev_rowId ex_setName_event)) = Some ?prev'" "truthy ?prev'"
    by (simp_all add: rid)
  have run1: "?w1 = keep_work (log_append (log_entry_of ex_setName_event (JStr ex_r1) ex_actor 7)
        (row_update ''items'' [JStr ''z'', JNull] (Some ex_r1) (discard_work ex_world)))"
    using runCommand_single_modify [where sel = "[ex_r1 \<mapsto> ?prev]" and updater = ex_setter
        and prev = ?prev, OF plan1 reducer name kind l1 first cols c0 a0, of 7]
    by (simp add: rid tbl)
  have r1: "db_rows (committed ?w1) (''items'', ex_r1) = Some [JStr ''z'', JNum 5]"
    unfolding run1
    by (simp add: row_update_def coalesce_row_def nullish_def)
  note plan2 = ex_setName_lockAndPlan [OF r1, of JUndefined]
  from repeated_modify_same_partial [where sel = "[ex_r1 \<mapsto> ?prev]" and sel' = "[ex_r1 \<mapsto> ?prev']"
      and updater = ex_setter and prev = ?prev and prev' = ?prev',
      OF reducer name kind refl refl plan1 plan2 l1 l2 first again cols]
  have rows: "db_rows (committed ?w2) = db_rows (committed ?w1)"
    and e1: "db_events (committed ?w1) =
        db_events (committed ex_world) @ [log_entry_of ex_setName_event (ev_rowId ex_setName_event) ex_actor 7]"
    and e2: "db_events (committed ?w2) =
        db_events (committed ?w1) @ [log_entry_of ex_setName_event (ev_rowId ex_setName_event) ex_actor 8]"
    using c0 a0 by simp_all
  from e1 e2 have log: "db_events (committed ?w2) =
      [log_entry_of ex_setName_event (JStr ex_r1) ex_actor 7,
       log_entry_of ex_setName_event (JStr ex_r1) ex_actor 8]"
    by (simp add: rid)
  from reducer plan1 plan2 c0 a0 r1 rows log show ?thesis by blast
qed

end
